theory Spec2Isabelle
  imports Complex_Main "HOL-Library.Multiset"
begin

section \<open>Values of the source language\<close>

text \<open>
  The source is JavaScript. In the scorer and the matcher its numbers are modelled as
  \<^typ>\<open>real\<close>: the IEEE rounding of each operation is not modelled there. A property that
  may hold no number (\<open>undefined\<close>, \<open>null\<close> or \<open>NaN\<close>) is an \<open>option\<close>; the scorer and the
  matcher read such a property through \<open>|| 0\<close> or a truthiness test only, which treat the
  three alike. A string is a list of 8-bit code units (Latin-1), enough for every literal
  of the source.
\<close>

definition truthy_num :: "real option \<Rightarrow> bool" where
  \<comment> \<open>JavaScript truthiness of a number-or-missing value: \<open>undefined\<close>, \<open>null\<close> and \<open>0\<close> are falsy.\<close>
  "truthy_num x = (case x of None \<Rightarrow> False | Some v \<Rightarrow> v \<noteq> 0)"

definition or_zero :: "real option \<Rightarrow> real" where
  \<comment> \<open>\<open>x || 0\<close> on a number-or-missing value.\<close>
  "or_zero x = (case x of None \<Rightarrow> 0 | Some v \<Rightarrow> v)"

definition or_one :: "real option \<Rightarrow> real" where
  \<comment> \<open>\<open>x || 1\<close> on a number-or-missing value.\<close>
  "or_one x = (case x of None \<Rightarrow> 1 | Some v \<Rightarrow> if v = 0 then 1 else v)"

definition or_empty :: "string option \<Rightarrow> string" where
  \<comment> \<open>\<open>s || ''\<close>.\<close>
  "or_empty s = (case s of None \<Rightarrow> [] | Some v \<Rightarrow> v)"

definition or_nil :: "'a list option \<Rightarrow> 'a list" where
  \<comment> \<open>\<open>xs || []\<close>.\<close>
  "or_nil xs = (case xs of None \<Rightarrow> [] | Some v \<Rightarrow> v)"

definition js_round :: "real \<Rightarrow> int" where
  \<comment> \<open>\<open>Math.round\<close>: the nearest integer, a tie going up.\<close>
  "js_round x = \<lfloor>x + 1 / 2\<rfloor>"

definition round2 :: "real \<Rightarrow> real" where
  \<comment> \<open>\<open>Math.round(x * 100) / 100\<close>.\<close>
  "round2 x = real_of_int (js_round (x * 100)) / 100"

subsection \<open>Strings\<close>

definition upper_chars :: string where
  "upper_chars = ''ABCDEFGHIJKLMNOPQRSTUVWXYZ'' @
     [CHR 0xC0, CHR 0xC1, CHR 0xC2, CHR 0xC3, CHR 0xC4, CHR 0xC5, CHR 0xC6, CHR 0xC7,
      CHR 0xC8, CHR 0xC9, CHR 0xCA, CHR 0xCB, CHR 0xCC, CHR 0xCD, CHR 0xCE, CHR 0xCF,
      CHR 0xD0, CHR 0xD1, CHR 0xD2, CHR 0xD3, CHR 0xD4, CHR 0xD5, CHR 0xD6,
      CHR 0xD8, CHR 0xD9, CHR 0xDA, CHR 0xDB, CHR 0xDC, CHR 0xDD, CHR 0xDE]"

definition lower_chars :: string where
  "lower_chars = ''abcdefghijklmnopqrstuvwxyz'' @
     [CHR 0xE0, CHR 0xE1, CHR 0xE2, CHR 0xE3, CHR 0xE4, CHR 0xE5, CHR 0xE6, CHR 0xE7,
      CHR 0xE8, CHR 0xE9, CHR 0xEA, CHR 0xEB, CHR 0xEC, CHR 0xED, CHR 0xEE, CHR 0xEF,
      CHR 0xF0, CHR 0xF1, CHR 0xF2, CHR 0xF3, CHR 0xF4, CHR 0xF5, CHR 0xF6,
      CHR 0xF8, CHR 0xF9, CHR 0xFA, CHR 0xFB, CHR 0xFC, CHR 0xFD, CHR 0xFE]"

definition lower_char :: "char \<Rightarrow> char" where
  "lower_char c = (case map_of (zip upper_chars lower_chars) c of None \<Rightarrow> c | Some d \<Rightarrow> d)"

definition toLowerCase :: "string \<Rightarrow> string" where
  "toLowerCase s = map lower_char s"

fun starts_with :: "'a list \<Rightarrow> 'a list \<Rightarrow> bool" where
  "starts_with _ [] = True"
| "starts_with [] (y # ys) = False"
| "starts_with (x # xs) (y # ys) = (x = y \<and> starts_with xs ys)"

fun str_includes :: "'a list \<Rightarrow> 'a list \<Rightarrow> bool" where
  \<comment> \<open>\<open>s.includes(pat)\<close>: \<open>pat\<close> occurs in \<open>s\<close> as a contiguous run.\<close>
  "str_includes [] pat = (pat = [])"
| "str_includes (x # xs) pat = (starts_with (x # xs) pat \<or> str_includes xs pat)"

fun join :: "string \<Rightarrow> string list \<Rightarrow> string" where
  \<comment> \<open>\<open>xs.join(sep)\<close>.\<close>
  "join sep [] = []"
| "join sep [x] = x"
| "join sep (x # y # ys) = x @ sep @ join sep (y # ys)"

section \<open>Data model\<close>

record breakdown =
  economic :: "real option"
  environmental :: "real option"
  social :: "real option"

record weights =
  w_economic :: real
  w_environmental :: real
  w_social :: real

record sustainability_score =
  total_s :: "real option"
  breakdown :: "breakdown option"
  weights :: "weights option"

record off_data =
  packaging :: "string option"
  origins :: "string option"
  labels_tags :: "string list option"
  additives :: "string list option"
  categories_tags :: "string list option"
  ingredients_text :: "string option"

text \<open>
  A product is a loosely typed object; every property the algorithms read is a field,
  optional where the code guards against its absence. \<open>ratio\<close> is the property the
  optimizer adds to its own copies.
\<close>

record product =
  prod_id :: "nat option"
  barcode :: "string option"
  name :: "string option"
  category :: "string option"
  price :: "real option"
  quantity :: "real option"
  currency :: "string option"
  carbon_footprint :: "real option"
  eco_score :: "string option"
  nutrition_grade :: "string option"
  openfoodfacts_data :: "off_data option"
  sustainability_score :: "sustainability_score option"
  ratio :: "real option"

definition off_field :: "(off_data \<Rightarrow> 'a option) \<Rightarrow> product \<Rightarrow> 'a option" where
  \<comment> \<open>\<open>product.openfoodfacts_data?.f\<close>.\<close>
  "off_field f p = (case openfoodfacts_data p of None \<Rightarrow> None | Some d \<Rightarrow> f d)"

section \<open>Sustainability scoring\<close>

definition default_weights :: weights where
  "default_weights = \<lparr>w_economic = 0.4, w_environmental = 0.4, w_social = 0.2\<rparr>"

definition calculateEconomicScore :: "product \<Rightarrow> real" where
  "calculateEconomicScore p =
     (if \<not> truthy_num (price p) then 0.5
      else
        let normalizedPrice = min (the (price p) / 50) 1;
            score = 1 - normalizedPrice;
            score = (if nutrition_grade p = Some ''A'' \<or> nutrition_grade p = Some ''B''
                     then score + 0.1 else score)
        in max 0 (min 1 score))"

datatype lookup = Absent | Own real | Inherited

definition inherited_keys :: "string list" where
  \<comment> \<open>The property names every plain object inherits from \<open>Object.prototype\<close>.\<close>
  "inherited_keys =
     [''constructor'', ''__defineGetter__'', ''__defineSetter__'', ''hasOwnProperty'',
      ''__lookupGetter__'', ''__lookupSetter__'', ''isPrototypeOf'', ''propertyIsEnumerable'',
      ''toString'', ''valueOf'', ''__proto__'', ''toLocaleString'']"

definition ecoScoreMap :: "string \<Rightarrow> lookup" where
  \<comment> \<open>\<open>ecoScoreMap[g]\<close> on the object literal \<open>{A: 1.0, B: 0.8, C: 0.6, D: 0.4, E: 0.2}\<close>: one of
      its five numbers, or a function or object it inherits, or \<open>undefined\<close>.\<close>
  "ecoScoreMap g =
     (if g = ''A'' then Own 1.0 else if g = ''B'' then Own 0.8
      else if g = ''C'' then Own 0.6 else if g = ''D'' then Own 0.4
      else if g = ''E'' then Own 0.2
      else if g \<in> set inherited_keys then Inherited else Absent)"

text \<open>
  The local \<open>score\<close> of the environmental sub-score is a number unless the eco-score names
  an inherited property: then it is a function or an object, every later step leaves it a
  non-number (\<open>*\<close> gives \<open>NaN\<close>, \<open>+=\<close> a string that is no numeral), and \<open>Math.min\<close> makes it
  \<open>NaN\<close> at the end. \<open>None\<close> stands for such a non-number, and in what the scorer returns
  for \<open>NaN\<close>.
\<close>

definition calculateEnvironmentalScore :: "product \<Rightarrow> real option" where
  "calculateEnvironmentalScore p =
     (let score = Some 0.5;
          score = (case eco_score p of
                     None \<Rightarrow> score
                   | Some g \<Rightarrow> if g = [] then score
                               else (case ecoScoreMap g of
                                       Absent \<Rightarrow> Some 0.5 | Own v \<Rightarrow> Some v | Inherited \<Rightarrow> None));
          score = (if truthy_num (carbon_footprint p)
                   then let carbon = the (carbon_footprint p);
                            carbonScore = max 0 (1 - carbon / 5)
                        in map_option (\<lambda>s. s * 0.7 + carbonScore * 0.3) score
                   else score);
          packaging = toLowerCase (or_empty (off_field packaging p));
          score = (if str_includes packaging ''reciclable'' \<or> str_includes packaging ''biodegradable''
                   then map_option (\<lambda>s. s + 0.1) score else score);
          origins = or_empty (off_field origins p);
          score = (if origins \<noteq> [] \<and> \<not> str_includes (toLowerCase origins) ''import''
                   then map_option (\<lambda>s. s + 0.05) score else score)
      in map_option (\<lambda>s. max 0 (min 1 s)) score)"

definition organico :: string where
  \<comment> \<open>The literal \<open>org\<acute>anico\<close>, its second vowel being the code unit \<open>0xE1\<close>.\<close>
  "organico = ''org'' @ [CHR 0xE1] @ ''nico''"

definition calculateSocialScore :: "product \<Rightarrow> real" where
  "calculateSocialScore p =
     (let score = 0.5;
          labels = or_nil (off_field labels_tags p);
          labelText = toLowerCase (join '' '' labels);
          score = (if str_includes labelText ''fair trade'' \<or> str_includes labelText ''comercio justo''
                   then score + 0.3 else score);
          score = (if str_includes labelText ''organic'' \<or> str_includes labelText ''bio''
                      \<or> str_includes labelText organico
                   then score + 0.2 else score);
          score = (if str_includes labelText ''rainforest'' \<or> str_includes labelText ''rainforest alliance''
                   then score + 0.1 else score);
          score = (if or_empty (off_field origins p) \<noteq> [] then score + 0.1 else score);
          additives = or_nil (off_field additives p);
          score = (if length additives > 5 then score - 0.1 else score)
      in max 0 (min 1 score))"

definition calculateSustainabilityScore :: "product \<Rightarrow> weights \<Rightarrow> sustainability_score" where
  "calculateSustainabilityScore p w =
     (let economicScore = calculateEconomicScore p;
          environmentalScore = calculateEnvironmentalScore p;
          socialScore = calculateSocialScore p;
          totalScore = map_option (\<lambda>v. economicScore * w_economic w
                                       + v * w_environmental w
                                       + socialScore * w_social w) environmentalScore
      in \<lparr>total_s = map_option round2 totalScore,
          breakdown = Some \<lparr>economic = Some (round2 economicScore),
                            environmental = map_option round2 environmentalScore,
                            social = Some (round2 socialScore)\<rparr>,
          weights = Some w\<rparr>)"

definition calculateScoresForProducts :: "product list \<Rightarrow> weights \<Rightarrow> product list" where
  "calculateScoresForProducts products w =
     map (\<lambda>p. p\<lparr>sustainability_score := Some (calculateSustainabilityScore p w)\<rparr>) products"

text \<open>
  The economic sub-score as the specification words it: base 0.5; the price formula when a
  price is present; the flat nutrition bonus; the clamp. Kept apart from
  \<^const>\<open>calculateEconomicScore\<close>, which is the code.
\<close>

definition economic_spec :: "product \<Rightarrow> real" where
  "economic_spec p =
     (let base = (case price p of None \<Rightarrow> 0.5 | Some x \<Rightarrow> 1 - min (x / 50) 1);
          bonus = (if nutrition_grade p = Some ''A'' \<or> nutrition_grade p = Some ''B''
                   then 0.1 else 0)
      in max 0 (min 1 (base + bonus)))"

definition bare_product :: product where
  \<comment> \<open>The object \<open>{}\<close>: every property missing.\<close>
  "bare_product =
     \<lparr>prod_id = None, barcode = None, name = None, category = None, price = None,
      quantity = None, currency = None, carbon_footprint = None, eco_score = None,
      nutrition_grade = None, openfoodfacts_data = None, sustainability_score = None,
      ratio = None\<rparr>"

definition mockProduct :: product where
  \<comment> \<open>The product of the scorer's test-suite (its origin written in ASCII).\<close>
  "mockProduct = bare_product\<lparr>price := Some 5.5, nutrition_grade := Some ''A'',
     eco_score := Some ''B'', carbon_footprint := Some 1.2,
     openfoodfacts_data := Some \<lparr>packaging = Some ''Reciclable'', origins = Some ''Espana'',
        labels_tags = Some [''organic'', ''fair trade''], additives = Some [],
        categories_tags = None, ingredients_text = None\<rparr>\<rparr>"

subsection \<open>The environmental sub-score, taken apart\<close>

text \<open>Three readings of \<^const>\<open>calculateEnvironmentalScore\<close>'s steps, used by the proofs only.\<close>

definition eco_base :: "product \<Rightarrow> real option" where
  "eco_base p =
     (case eco_score p of
        None \<Rightarrow> Some 0.5
      | Some g \<Rightarrow> if g = [] then Some 0.5
                  else (case ecoScoreMap g of
                          Absent \<Rightarrow> Some 0.5 | Own v \<Rightarrow> Some v | Inherited \<Rightarrow> None))"

definition carbon_blend :: "product \<Rightarrow> real \<Rightarrow> real" where
  "carbon_blend p g =
     (if truthy_num (carbon_footprint p)
      then g * 0.7 + max 0 (1 - the (carbon_footprint p) / 5) * 0.3 else g)"

definition env_bonus :: "product \<Rightarrow> real" where
  "env_bonus p =
     (if str_includes (toLowerCase (or_empty (off_field packaging p))) ''reciclable''
         \<or> str_includes (toLowerCase (or_empty (off_field packaging p))) ''biodegradable''
      then 0.1 else 0)
     + (if or_empty (off_field origins p) \<noteq> []
          \<and> \<not> str_includes (toLowerCase (or_empty (off_field origins p))) ''import''
        then 0.05 else 0)"

section \<open>Budget optimizer (knapsack)\<close>

datatype error = RangeError

record optimize_options =
  opt_minScore :: real
  opt_prioritizeSustainability :: bool
  opt_allowPartial :: bool

definition default_options :: optimize_options where
  "default_options =
     \<lparr>opt_minScore = 0, opt_prioritizeSustainability = True, opt_allowPartial = False\<rparr>"

record savings =
  sv_economic :: real
  sv_carbon :: real
  sv_percentage :: "int option"

text \<open>
  The result object. \<open>sv_percentage\<close> and \<open>budgetUsed\<close> are missing from the result for an
  empty list; \<open>budgetUsed\<close> is also \<open>None\<close> where the division by a zero budget leaves no
  finite number.
\<close>

record optimization_result =
  selected :: "product list"
  totalCost :: real
  totalScore :: real
  totalCarbon :: real
  savings :: savings
  budgetUsed :: "real option"
  message :: string

subsection \<open>Messages\<close>

definition digit_char :: "nat \<Rightarrow> char" where
  "digit_char n = ''0123456789'' ! n"

function show_nat :: "nat \<Rightarrow> string" where
  "show_nat n = (if n < 10 then [digit_char n] else show_nat (n div 10) @ [digit_char (n mod 10)])"
  by pat_completeness auto
termination
  by (relation "measure id") auto

declare show_nat.simps [simp del]

definition msg_no_valid :: string where
  "msg_no_valid = ''No hay productos v'' @ [CHR 0xE1] @ ''lidos para optimizar''"

definition msg_greedy :: "nat \<Rightarrow> string" where
  "msg_greedy n = ''Seleccionados '' @ show_nat n @ '' productos usando algoritmo Greedy''"

definition msg_dp :: "nat \<Rightarrow> string" where
  "msg_dp n = ''Seleccionados '' @ show_nat n @ '' productos usando Programaci''
                @ [CHR 0xF3] @ ''n Din'' @ [CHR 0xE1] @ ''mica''"

definition msg_none_min :: string where
  "msg_none_min = ''Ning'' @ [CHR 0xFA] @ ''n producto cumple el score m'' @ [CHR 0xED]
                    @ ''nimo requerido''"

subsection \<open>Sorting\<close>

text \<open>
  \<open>Array.prototype.sort\<close> with a comparator, as a stable insertion sort: each element in
  turn moves left past the elements that compare greater than it. For a comparator that is
  a consistent ordering every stable sort gives this result.
\<close>

fun ins_by :: "('a \<Rightarrow> 'a \<Rightarrow> real) \<Rightarrow> 'a \<Rightarrow> 'a list \<Rightarrow> 'a list" where
  \<comment> \<open>The sorted prefix is kept reversed: its head is the element next to the one inserted.\<close>
  "ins_by cmp x [] = [x]"
| "ins_by cmp x (y # ys) = (if cmp y x > 0 then y # ins_by cmp x ys else x # y # ys)"

definition sort_by :: "('a \<Rightarrow> 'a \<Rightarrow> real) \<Rightarrow> 'a list \<Rightarrow> 'a list" where
  "sort_by cmp xs = rev (foldl (\<lambda>acc x. ins_by cmp x acc) [] xs)"

subsection \<open>Reading a validated product\<close>

definition total_opt :: "product \<Rightarrow> real option" where
  \<comment> \<open>\<open>p.sustainability_score?.total\<close>.\<close>
  "total_opt p = (case sustainability_score p of None \<Rightarrow> None | Some s \<Rightarrow> total_s s)"

definition valid_product :: "product \<Rightarrow> bool" where
  \<comment> \<open>\<open>p.price && p.sustainability_score && p.sustainability_score.total !== undefined\<close>.\<close>
  "valid_product p = (truthy_num (price p) \<and> total_opt p \<noteq> None)"

definition score_total :: "product \<Rightarrow> real" where
  \<comment> \<open>\<open>p.sustainability_score.total\<close>, read on validated products only.\<close>
  "score_total p = the (total_opt p)"

definition item_cost :: "product \<Rightarrow> real" where
  \<comment> \<open>\<open>p.price * (p.quantity || 1)\<close>; a missing price is \<open>null\<close>, which multiplies as 0.\<close>
  "item_cost p = or_zero (price p) * or_one (quantity p)"

definition cost_cents :: "product \<Rightarrow> int" where
  \<comment> \<open>The local \<open>costCents\<close>: \<open>Math.floor(p.price * (p.quantity || 1) * 100)\<close>.\<close>
  "cost_cents p = \<lfloor>item_cost p * 100\<rfloor>"

subsection \<open>Greedy strategy\<close>

fun greedy_loop :: "product list \<Rightarrow> real \<Rightarrow> real \<Rightarrow> product list \<Rightarrow> product list" where
  "greedy_loop [] remainingBudget minScore sel = sel"
| "greedy_loop (product # rest) remainingBudget minScore sel =
     (let cost = item_cost product;
          score = score_total product
      in if cost \<le> remainingBudget \<and> score \<ge> minScore
         then greedy_loop rest (remainingBudget - cost) minScore (sel @ [product])
         else greedy_loop rest remainingBudget minScore sel)"

definition greedyOptimization :: "product list \<Rightarrow> real \<Rightarrow> real \<Rightarrow> product list \<times> string" where
  "greedyOptimization products maxBudget minScore =
     (let sorted = sort_by (\<lambda>a b. the (ratio b) - the (ratio a)) products;
          selected = greedy_loop sorted maxBudget minScore []
      in (selected, msg_greedy (length selected)))"

subsection \<open>Dynamic-programming strategy\<close>

definition valid_array_length :: "int \<Rightarrow> bool" where
  \<comment> \<open>\<open>Array(n)\<close> throws a \<open>RangeError\<close> unless \<open>n\<close> is an integer in \<open>[0, 2^32 - 1]\<close>.\<close>
  "valid_array_length n = (0 \<le> n \<and> n \<le> 4294967295)"

definition row_get :: "'a list \<Rightarrow> int \<Rightarrow> 'a option" where
  \<comment> \<open>\<open>row[i]\<close>: \<open>undefined\<close> outside the array.\<close>
  "row_get r i = (if 0 \<le> i \<and> i < int (length r) then Some (r ! nat i) else None)"

definition dp_cell :: "real list \<Rightarrow> int \<Rightarrow> real \<Rightarrow> int \<Rightarrow> real \<times> bool" where
  \<comment> \<open>The body of the inner loop: the new \<open>dp[i][w]\<close> and \<open>selected[i][w]\<close> from row \<open>i - 1\<close>.
      Reading \<open>dp[i - 1][w - costCents]\<close> outside the row gives \<open>undefined\<close>; adding the score
      gives \<open>NaN\<close>, which is greater than nothing.\<close>
  "dp_cell prev costCents score w =
     (let skip = prev ! nat w
      in if w \<ge> costCents
         then (case row_get prev (w - costCents) of
                 None \<Rightarrow> (skip, False)
               | Some v \<Rightarrow>
                   let scoreWithProduct = v + score
                   in if scoreWithProduct > skip then (scoreWithProduct, True) else (skip, False))
         else (skip, False))"

definition dp_row :: "real list \<Rightarrow> int \<Rightarrow> real \<Rightarrow> (real \<times> bool) list" where
  \<comment> \<open>The inner loop, \<open>w\<close> from 0 to \<open>budgetCents\<close>.\<close>
  "dp_row prev costCents score = map (\<lambda>w. dp_cell prev costCents score (int w)) [0..<length prev]"

fun dp_fill :: "product list \<Rightarrow> real list \<Rightarrow> bool list list" where
  \<comment> \<open>The outer loop: the rows 1 to n of \<open>selected\<close>, given row \<open>i - 1\<close> of \<open>dp\<close>.\<close>
  "dp_fill [] prev = []"
| "dp_fill (product # rest) prev =
     (let row = dp_row prev (cost_cents product) (score_total product)
      in map snd row # dp_fill rest (map fst row))"

fun reconstruct :: "(product \<times> bool list) list \<Rightarrow> int \<Rightarrow> product list \<Rightarrow> product list" where
  \<comment> \<open>The walk back, \<open>i\<close> from n down to 1, over the products paired with their rows.\<close>
  "reconstruct [] w result = result"
| "reconstruct ((product, sel_row) # rest) w result =
     (if row_get sel_row w = Some True
      then reconstruct rest (w - cost_cents product) (result @ [product])
      else reconstruct rest w result)"

definition dynamicProgrammingOptimization ::
    "product list \<Rightarrow> real \<Rightarrow> real \<Rightarrow> error + product list \<times> string" where
  "dynamicProgrammingOptimization products maxBudget minScore =
     (let validProducts = filter (\<lambda>p. score_total p \<ge> minScore) products
      in if validProducts = [] then Inr ([], msg_none_min)
         else
           let budgetCents = \<lfloor>maxBudget * 100\<rfloor>
           in if \<not> valid_array_length (budgetCents + 1) then Inl RangeError
              else
                let row0 = replicate (nat (budgetCents + 1)) 0;
                    sel = dp_fill validProducts row0;
                    result = reconstruct (rev (zip validProducts sel)) budgetCents []
                in Inr (rev result, msg_dp (length result)))"

subsection \<open>Entry point\<close>

definition empty_result :: optimization_result where
  "empty_result =
     \<lparr>selected = [], totalCost = 0, totalScore = 0, totalCarbon = 0,
      savings = \<lparr>sv_economic = 0, sv_carbon = 0, sv_percentage = None\<rparr>,
      budgetUsed = None, message = msg_no_valid\<rparr>"

definition optimizeShoppingList ::
    "product list \<Rightarrow> real \<Rightarrow> optimize_options \<Rightarrow> error + optimization_result" where
  "optimizeShoppingList products maxBudget options =
     (let validProducts = filter valid_product products
      in if validProducts = [] then Inr empty_result
         else
           let productsWithRatio =
                 map (\<lambda>product. product\<lparr>ratio := Some (score_total product / the (price product))\<rparr>)
                     validProducts;
               result = (if opt_prioritizeSustainability options
                         then Inr (greedyOptimization productsWithRatio maxBudget (opt_minScore options))
                         else dynamicProgrammingOptimization productsWithRatio maxBudget
                                (opt_minScore options))
           in case result of
                Inl e \<Rightarrow> Inl e
              | Inr (sel, msg) \<Rightarrow>
                  let totalCost = (\<Sum>p\<leftarrow>sel. item_cost p);
                      totalScore = (\<Sum>p\<leftarrow>sel. score_total p * or_one (quantity p));
                      totalCarbon = (\<Sum>p\<leftarrow>sel. or_zero (carbon_footprint p) * or_one (quantity p));
                      originalCost = (\<Sum>p\<leftarrow>products. item_cost p);
                      originalCarbon =
                        (\<Sum>p\<leftarrow>products. or_zero (carbon_footprint p) * or_one (quantity p))
                  in Inr \<lparr>selected = sel,
                          totalCost = round2 totalCost,
                          totalScore = round2 totalScore,
                          totalCarbon = round2 totalCarbon,
                          savings =
                            \<lparr>sv_economic = max 0 (round2 (originalCost - totalCost)),
                             sv_carbon = max 0 (round2 (originalCarbon - totalCarbon)),
                             sv_percentage =
                               Some (if originalCost > 0
                                     then js_round ((originalCost - totalCost) / originalCost * 100)
                                     else 0)\<rparr>,
                          budgetUsed =
                            (if maxBudget = 0 then None else Some (round2 (totalCost / maxBudget))),
                          message = msg\<rparr>)"

subsection \<open>Inputs of the test-suite and of the examples\<close>

definition createMockProduct :: "nat \<Rightarrow> real \<Rightarrow> real \<Rightarrow> product" where
  \<comment> \<open>The test-suite's constructor for the optimizer, the name left out.\<close>
  "createMockProduct i pr sc =
     bare_product\<lparr>prod_id := Some i, price := Some pr, quantity := Some 1,
       carbon_footprint := Some 1,
       sustainability_score := Some \<lparr>total_s = Some sc,
         breakdown = Some \<lparr>economic = Some (sc * 0.4), environmental = Some (sc * 0.4),
                           social = Some (sc * 0.2)\<rparr>,
         weights = None\<rparr>\<rparr>"

definition dp_options :: optimize_options where
  "dp_options = default_options\<lparr>opt_prioritizeSustainability := False\<rparr>"

subsection \<open>The entry point, taken apart\<close>

text \<open>The two intermediate values of \<^const>\<open>optimizeShoppingList\<close>, named for the proofs.\<close>

definition productsWithRatio :: "product list \<Rightarrow> product list" where
  "productsWithRatio products =
     map (\<lambda>product. product\<lparr>ratio := Some (score_total product / the (price product))\<rparr>)
         (filter valid_product products)"

definition strategy_result ::
    "product list \<Rightarrow> real \<Rightarrow> optimize_options \<Rightarrow> error + product list \<times> string" where
  "strategy_result products maxBudget options =
     (if opt_prioritizeSustainability options
      then Inr (greedyOptimization (productsWithRatio products) maxBudget (opt_minScore options))
      else dynamicProgrammingOptimization (productsWithRatio products) maxBudget
             (opt_minScore options))"


definition scenario_products :: "product list" where
  \<comment> \<open>The four items of the specification's Greedy scenario, and of the first optimizer test.\<close>
  "scenario_products =
     [createMockProduct 1 10 0.9, createMockProduct 2 15 0.8,
      createMockProduct 3 20 0.7, createMockProduct 4 5 0.6]"


section \<open>Smart substitution\<close>

subsection \<open>More on strings\<close>

definition is_space :: "char \<Rightarrow> bool" where
  \<comment> \<open>The white space of \<open>trim\<close> and of \<open>\s\<close>, among the 8-bit code units.\<close>
  "is_space c = (c \<in> set [CHR 0x20, CHR 0x09, CHR 0x0A, CHR 0x0B, CHR 0x0C, CHR 0x0D, CHR 0xA0])"

definition trim :: "string \<Rightarrow> string" where
  "trim s = rev (dropWhile is_space (rev (dropWhile is_space s)))"

fun split_on :: "char \<Rightarrow> string \<Rightarrow> string \<Rightarrow> string list" where
  \<comment> \<open>\<open>s.split(d)\<close> for a one-character separator; the third argument is the piece being read.\<close>
  "split_on d [] cur = [cur]"
| "split_on d (c # cs) cur =
     (if c = d then cur # split_on d cs [] else split_on d cs (cur @ [c]))"

fun split_runs :: "(char \<Rightarrow> bool) \<Rightarrow> string \<Rightarrow> string \<Rightarrow> string list" where
  \<comment> \<open>\<open>s.split(/[...]+/)\<close> without the empty pieces at the two ends, which every caller
      drops by its length filter.\<close>
  "split_runs sep [] cur = (if cur = [] then [] else [cur])"
| "split_runs sep (c # cs) cur =
     (if sep c then (if cur = [] then split_runs sep cs [] else cur # split_runs sep cs [])
      else split_runs sep cs (cur @ [c]))"

definition strip_prefix :: "string \<Rightarrow> string \<Rightarrow> string" where
  \<comment> \<open>\<open>s.replace(/^pre/, '')\<close>.\<close>
  "strip_prefix pre s = (if starts_with s pre then drop (length pre) s else s)"

definition dedup :: "'a list \<Rightarrow> 'a list" where
  \<comment> \<open>\<open>[...new Set(xs)]\<close>: the first occurrence of each element, in order.\<close>
  "dedup xs = rev (remdups (rev xs))"

subsection \<open>Criteria and candidates\<close>

record dietary =
  vegan :: bool
  glutenFree :: bool

record criteria =
  minScoreImprovement :: real
  sameCategory :: bool
  maxResults :: int
  maxPriceIncrease :: real
  dietaryRestrictions :: "dietary option"

definition default_criteria :: criteria where
  "default_criteria =
     \<lparr>minScoreImprovement = 0.1, sameCategory = True, maxResults = 5,
      maxPriceIncrease = 0.2, dietaryRestrictions = None\<rparr>"

datatype recommendation = Economic | Environmental | Social | Balanced

text \<open>
  A candidate with its scores: the copy \<open>{...candidate, ...}\<close> of the source, the copied
  product being the field \<open>base\<close>. The recommendation is set when the candidate enters the
  result.
\<close>

record substitute =
  base :: product
  economicImprovement :: real
  environmentalImprovement :: real
  socialImprovement :: real
  priceDifference :: real
  economicScore :: real
  environmentalScore :: real
  socialScore :: real
  recommendationType :: "recommendation option"
  recommendationLabel :: "string option"

definition total_or_zero :: "product \<Rightarrow> real" where
  \<comment> \<open>\<open>p.sustainability_score?.total || 0\<close>.\<close>
  "total_or_zero p = or_zero (total_opt p)"

definition breakdown_or_zero :: "(breakdown \<Rightarrow> real option) \<Rightarrow> product \<Rightarrow> real" where
  \<comment> \<open>\<open>(p.sustainability_score?.breakdown || {}).f || 0\<close>.\<close>
  "breakdown_or_zero f p =
     (case sustainability_score p of
        None \<Rightarrow> 0
      | Some s \<Rightarrow> (case breakdown s of None \<Rightarrow> 0 | Some b \<Rightarrow> or_zero (f b)))"

subsection \<open>Categories\<close>

definition extractCategories :: "product \<Rightarrow> string list" where
  \<comment> \<open>\<open>openfoodfacts_data\<close> is the parsed object; its JSON text form is not modelled.\<close>
  "extractCategories product =
     (let categories =
            (if or_empty (category product) \<noteq> []
             then map trim (split_on (CHR '','') (toLowerCase (or_empty (category product))) [])
             else []);
          categories = categories @
            (case off_field categories_tags product of
               None \<Rightarrow> []
             | Some tags \<Rightarrow>
                 map (\<lambda>c. strip_prefix ''es:'' (strip_prefix ''en:'' (toLowerCase c))) tags)
      in dedup categories)"

definition genericCategories :: "string list" where
  "genericCategories =
     [''alimentos y bebidas de origen vegetal'',
      ''alimentos de origen vegetal'',
      ''alimentos'',
      ''bebidas'',
      ''desayunos'',
      ''specific products'',
      ''products for specific diets'',
      ''en:specific products'',
      ''en:products for specific diets'']"

definition significantCats :: "string list \<Rightarrow> string list" where
  "significantCats cats =
     filter (\<lambda>cat. \<not> list_ex (\<lambda>gen. str_includes cat gen) genericCategories \<and> length cat > 3) cats"

definition extractKeywords :: "string list \<Rightarrow> string list" where
  "extractKeywords cats =
     dedup (concat (map (\<lambda>cat.
        map toLowerCase
          (filter (\<lambda>w. length w > 3)
             (split_runs (\<lambda>c. is_space c \<or> c = CHR '','' \<or> c = CHR ''-'') cat [])))
        cats))"

definition some_match :: "string list \<Rightarrow> string list \<Rightarrow> bool" where
  \<comment> \<open>\<open>xs.length > 0 && ys.length > 0 && xs.some(x => ys.some(y => y.includes(x) || x.includes(y)))\<close>.\<close>
  "some_match xs ys =
     (xs \<noteq> [] \<and> ys \<noteq> [] \<and>
      list_ex (\<lambda>x. list_ex (\<lambda>y. str_includes y x \<or> str_includes x y) ys) xs)"

definition name_words :: "product \<Rightarrow> string list" where
  \<comment> \<open>\<open>(p.name || '').toLowerCase().split(/\s+/).filter(w => w.length > 3)\<close>.\<close>
  "name_words p =
     filter (\<lambda>w. length w > 3) (split_runs is_space (toLowerCase (or_empty (name p))) [])"

definition has_leche :: "product \<Rightarrow> bool" where
  "has_leche p =
     (str_includes (toLowerCase (or_empty (name p))) ''leche''
      \<or> str_includes (toLowerCase (or_empty (name p))) ''milk'')"

definition category_match :: "product \<Rightarrow> product \<Rightarrow> bool" where
  \<comment> \<open>The negation of the condition of the \<open>no_category_match\<close> rejection.\<close>
  "category_match product candidate =
     (let productCategories = extractCategories product;
          candidateCategories = extractCategories candidate;
          productSignificantCats = significantCats productCategories;
          candidateSignificantCats = significantCats candidateCategories;
          productKeywords = extractKeywords productCategories;
          candidateKeywords = extractKeywords candidateCategories;
          allProductCats = filter (\<lambda>cat. length cat > 2) productCategories;
          allCandidateCats = filter (\<lambda>cat. length cat > 2) candidateCategories;
          hasBasicMatch = some_match allProductCats allCandidateCats;
          hasKeywordMatch = some_match productKeywords candidateKeywords;
          hasSignificantMatch = some_match productSignificantCats candidateSignificantCats;
          productNameWords = name_words product;
          candidateNameWords = name_words candidate;
          hasNameMatch = (productNameWords \<noteq> [] \<and> candidateNameWords \<noteq> [] \<and>
                          list_ex (\<lambda>w. w \<in> set candidateNameWords) productNameWords);
          productHasLeche = has_leche product;
          candidateHasLeche = has_leche candidate
      in \<not> (\<not> hasBasicMatch \<and> \<not> hasKeywordMatch \<and> \<not> hasSignificantMatch \<and> \<not> hasNameMatch
             \<and> \<not> (productHasLeche \<and> candidateHasLeche)))"

definition incompatibleCategoryGroups :: "(string list \<times> string list) list" where
  \<comment> \<open>Each group: its \<open>categories\<close> and what they are \<open>incompatibleWith\<close>.\<close>
  "incompatibleCategoryGroups =
     [([''leche'', ''leches'', ''milk'', ''milks'', ''leche semidesnatada'',
        ''leche semidescremada'', ''leche entera'', ''leche desnatada'', ''leche descremada'',
        ''whole-milks'', ''semi-skimmed milk'', ''skimmed milk'', ''leche-uht'',
        ''leche-de-vaca'', ''leche sin lactosa''],
       [''nata'', ''crema'', ''cream'', ''queso'', ''cheese'', ''mantequilla'', ''butter'',
        ''dairy-spread'', ''grasas de la leche'', ''grasas animales'']),
      ([''nata'', ''crema'', ''cream''],
       [''leche'', ''leches'', ''milk'', ''milks'', ''queso'', ''cheese'', ''mantequilla'',
        ''butter'']),
      ([''queso'', ''cheese'', ''queso rallado''],
       [''leche'', ''leches'', ''milk'', ''nata'', ''crema'', ''mantequilla'', ''butter'']),
      ([''mantequilla'', ''butter'', ''dairy-spread'', ''grasas de la leche''],
       [''leche'', ''leches'', ''milk'', ''nata'', ''crema'', ''queso'', ''cheese''])]"

definition incompatible :: "product \<Rightarrow> product \<Rightarrow> bool" where
  \<comment> \<open>Some group rejects the pair; the loop of the source stops at the first such group.\<close>
  "incompatible product candidate =
     (let productSignificantCats = significantCats (extractCategories product);
          candidateSignificantCats = significantCats (extractCategories candidate)
      in list_ex (\<lambda>(cats, incompatibleWith).
           let productHasGroupCategory =
                 list_ex (\<lambda>cat. list_ex (\<lambda>pCat. str_includes pCat cat \<or> str_includes cat pCat)
                                    productSignificantCats) cats;
               candidateHasIncompatible =
                 list_ex (\<lambda>incat. list_ex (\<lambda>cCat. str_includes cCat incat \<or> str_includes incat cCat)
                                      candidateSignificantCats) incompatibleWith
           in productHasGroupCategory \<and> candidateHasIncompatible)
         incompatibleCategoryGroups)"

definition categoryBonus :: "product \<Rightarrow> product \<Rightarrow> real" where
  "categoryBonus product candidate =
     (let productSignificantCats = significantCats (extractCategories product);
          candidateSignificantCats = significantCats (extractCategories candidate)
      in if productSignificantCats \<noteq> [] \<and> candidateSignificantCats \<noteq> []
         then
           let sharedSignificantCats =
                 filter (\<lambda>cat. list_ex (\<lambda>candCat. str_includes candCat cat \<or> str_includes cat candCat)
                                   candidateSignificantCats) productSignificantCats
           in if sharedSignificantCats \<noteq> []
              then
                let bonus = min 0.15 (real (length sharedSignificantCats) * 0.05);
                    productMostSpecific = last productSignificantCats;
                    candidateMostSpecific = last candidateSignificantCats
                in if str_includes productMostSpecific candidateMostSpecific
                      \<or> str_includes candidateMostSpecific productMostSpecific
                   then bonus + 0.1 else bonus
              else 0
         else 0)"

definition hasSharedCategories :: "product \<Rightarrow> product \<Rightarrow> bool" where
  "hasSharedCategories product candidate =
     (let productCategories = extractCategories product;
          candidateCategories = extractCategories candidate
      in some_match (significantCats productCategories) (significantCats candidateCategories)
         \<or> some_match productCategories candidateCategories
         \<or> some_match (extractKeywords productCategories) (extractKeywords candidateCategories))"

definition hasSimilarCategories :: "product \<Rightarrow> product \<Rightarrow> bool" where
  "hasSimilarCategories product candidate =
     (let productCategories = extractCategories product;
          candidateCategories = extractCategories candidate
      in productCategories \<noteq> [] \<and> candidateCategories \<noteq> [] \<and>
         list_ex (\<lambda>cat. list_ex (\<lambda>candCat.
                    str_includes (toLowerCase candCat) (take 4 (toLowerCase cat))
                    \<or> str_includes (toLowerCase cat) (take 4 (toLowerCase candCat)))
                  candidateCategories) productCategories)"

subsection \<open>The filter\<close>

definition score_ok :: "product \<Rightarrow> criteria \<Rightarrow> product \<Rightarrow> bool" where
  \<comment> \<open>The candidate survives the three \<open>score_too_low\<close> rejections.\<close>
  "score_ok product crit candidate =
     (let currentScore = total_or_zero product;
          candidateScore = total_or_zero candidate;
          adjustedCandidateScore = candidateScore + categoryBonus product candidate;
          adjustedMinImprovement =
            (if hasSharedCategories product candidate then minScoreImprovement crit * 0.2
             else if categoryBonus product candidate > 0 then minScoreImprovement crit * 0.5
             else minScoreImprovement crit);
          requiredScore = currentScore + adjustedMinImprovement
      in if hasSharedCategories product candidate
         then \<not> adjustedCandidateScore < currentScore - 0.05
         else if hasSimilarCategories product candidate
              then \<not> adjustedCandidateScore < currentScore - 0.03
              else \<not> adjustedCandidateScore \<le> requiredScore)"

definition or_default :: "string option \<Rightarrow> string \<Rightarrow> string" where
  \<comment> \<open>\<open>s || d\<close> on a string-or-missing value: the empty string is falsy.\<close>
  "or_default s d = (if or_empty s = [] then d else or_empty s)"

definition price_ok :: "product \<Rightarrow> criteria \<Rightarrow> product \<Rightarrow> bool" where
  "price_ok product crit candidate =
     (let currentPrice = or_zero (price product);
          productCurrency = or_default (currency product) ''EUR'';
          candidatePrice = or_zero (price candidate);
          candidateCurrency = or_default (currency candidate) productCurrency
      in if candidateCurrency = productCurrency
         then \<not> candidatePrice > currentPrice * (1 + maxPriceIncrease crit)
         else True)"

definition dietary_ok :: "criteria \<Rightarrow> product \<Rightarrow> bool" where
  "dietary_ok crit candidate =
     (case dietaryRestrictions crit of
        None \<Rightarrow> True
      | Some d \<Rightarrow>
          let labels = toLowerCase (join '' '' (or_nil (off_field labels_tags candidate)));
              ingredients = toLowerCase (or_empty (off_field ingredients_text candidate));
              isVeganLabel = str_includes labels ''vegan'';
              hasAnimalIngredients =
                (str_includes ingredients ''leche'' \<or> str_includes ingredients ''huevo''
                 \<or> str_includes ingredients ''miel'' \<or> str_includes ingredients ''carne'');
              isGlutenFreeLabel =
                (str_includes labels ''gluten-free'' \<or> str_includes labels ''sin gluten'');
              hasGluten =
                (str_includes ingredients ''trigo'' \<or> str_includes ingredients ''cebada''
                 \<or> str_includes ingredients ''centeno'')
          in \<not> (vegan d \<and> \<not> isVeganLabel \<and> hasAnimalIngredients)
             \<and> \<not> (glutenFree d \<and> \<not> isGlutenFreeLabel \<and> hasGluten))"

definition passes_filter :: "product \<Rightarrow> criteria \<Rightarrow> product \<Rightarrow> bool" where
  \<comment> \<open>The callback of \<open>availableProducts.filter\<close>, its rejections in the source's order.\<close>
  "passes_filter product crit candidate =
     (if prod_id candidate = prod_id product \<or> barcode candidate = barcode product then False
      else if trim (toLowerCase (or_empty (name candidate)))
              = trim (toLowerCase (or_empty (name product))) then False
      else if sameCategory crit \<and> \<not> category_match product candidate then False
      else if incompatible product candidate then False
      else if \<not> score_ok product crit candidate then False
      else if \<not> price_ok product crit candidate then False
      else if \<not> dietary_ok crit candidate then False
      else True)"

subsection \<open>Ranking\<close>

definition annotate :: "product \<Rightarrow> product \<Rightarrow> substitute" where
  \<comment> \<open>The callback of \<open>candidates.map\<close>; a missing price is \<open>null\<close>, which subtracts as 0.\<close>
  "annotate product candidate =
     \<lparr>base = candidate,
      economicImprovement = breakdown_or_zero economic candidate - breakdown_or_zero economic product,
      environmentalImprovement =
        breakdown_or_zero environmental candidate - breakdown_or_zero environmental product,
      socialImprovement = breakdown_or_zero social candidate - breakdown_or_zero social product,
      priceDifference = or_zero (price candidate) - or_zero (price product),
      economicScore = breakdown_or_zero economic candidate,
      environmentalScore = breakdown_or_zero environmental candidate,
      socialScore = breakdown_or_zero social candidate,
      recommendationType = None,
      recommendationLabel = None\<rparr>"

definition label_of :: "recommendation \<Rightarrow> string" where
  "label_of t =
     ''Mejor Opci'' @ [CHR 0xF3] @ ''n '' @
     (case t of
        Economic \<Rightarrow> ''Econ'' @ [CHR 0xF3] @ ''mica''
      | Environmental \<Rightarrow> ''Ambiental''
      | Social \<Rightarrow> ''Social''
      | Balanced \<Rightarrow> ''Balanceada'')"

definition recommend :: "recommendation \<Rightarrow> substitute \<Rightarrow> substitute" where
  \<comment> \<open>\<open>{...c, recommendationType: t, recommendationLabel: label}\<close>.\<close>
  "recommend t c = c\<lparr>recommendationType := Some t, recommendationLabel := Some (label_of t)\<rparr>"

text \<open>
  The three comparators of the source differ in the dimension they read and in what counts
  as improving it; \<open>cmp_dimension\<close> is their common text.
\<close>

definition cmp_dimension ::
    "real \<Rightarrow> (substitute \<Rightarrow> real) \<Rightarrow> (substitute \<Rightarrow> bool) \<Rightarrow> substitute \<Rightarrow> substitute \<Rightarrow> real" where
  "cmp_dimension currentScore score_of improves a b =
     (let aTotal = total_or_zero (base a);
          bTotal = total_or_zero (base b);
          aImprovesTotal = (aTotal \<ge> currentScore);
          bImprovesTotal = (bTotal \<ge> currentScore)
      in if aImprovesTotal \<and> \<not> bImprovesTotal then - 1
         else if \<not> aImprovesTotal \<and> bImprovesTotal then 1
         else
           let aImproves = improves a;
               bImproves = improves b
           in if aImproves \<and> bImproves
              then (if \<bar>score_of a - score_of b\<bar> < 0.05 then priceDifference a - priceDifference b
                    else score_of b - score_of a)
              else if aImproves \<and> \<not> bImproves then - 1
              else if \<not> aImproves \<and> bImproves then 1
              else (if \<bar>score_of a - score_of b\<bar> < 0.05 then priceDifference a - priceDifference b
                    else score_of b - score_of a))"

definition cmp_economic :: "product \<Rightarrow> real \<Rightarrow> substitute \<Rightarrow> substitute \<Rightarrow> real" where
  "cmp_economic product currentScore =
     cmp_dimension currentScore economicScore
       (\<lambda>a. economicScore a \<ge> breakdown_or_zero economic product \<or> priceDifference a < 0)"

definition cmp_environmental :: "product \<Rightarrow> real \<Rightarrow> substitute \<Rightarrow> substitute \<Rightarrow> real" where
  "cmp_environmental product currentScore =
     cmp_dimension currentScore environmentalScore
       (\<lambda>a. environmentalScore a \<ge> breakdown_or_zero environmental product)"

definition cmp_social :: "product \<Rightarrow> real \<Rightarrow> substitute \<Rightarrow> substitute \<Rightarrow> real" where
  "cmp_social product currentScore =
     cmp_dimension currentScore socialScore
       (\<lambda>a. socialScore a \<ge> breakdown_or_zero social product)"

definition cmp_total :: "real \<Rightarrow> substitute \<Rightarrow> substitute \<Rightarrow> real" where
  "cmp_total currentScore a b =
     (let aTotal = total_or_zero (base a);
          bTotal = total_or_zero (base b)
      in if aTotal \<ge> currentScore \<and> bTotal < currentScore then - 1
         else if aTotal < currentScore \<and> bTotal \<ge> currentScore then 1
         else bTotal - aTotal)"

definition first :: "'a list \<Rightarrow> 'a option" where
  \<comment> \<open>\<open>xs[0]\<close>: \<open>undefined\<close> on the empty array.\<close>
  "first xs = (case xs of [] \<Rightarrow> None | x # _ \<Rightarrow> Some x)"

definition add_best ::
    "recommendation \<Rightarrow> substitute option \<Rightarrow> substitute list \<times> nat option list
       \<Rightarrow> substitute list \<times> nat option list" where
  \<comment> \<open>\<open>if (best && !addedIds.has(best.id)) { result.push({...}); addedIds.add(best.id) }\<close>.\<close>
  "add_best t best st =
     (case best of
        None \<Rightarrow> st
      | Some b \<Rightarrow>
          if prod_id (base b) \<in> set (snd st) then st
          else (fst st @ [recommend t b], snd st @ [prod_id (base b)]))"

type_synonym sorter = "(substitute \<Rightarrow> substitute \<Rightarrow> real) \<Rightarrow> substitute list \<Rightarrow> substitute list"

definition single_result :: "substitute \<Rightarrow> substitute list" where
  \<comment> \<open>The branch for exactly one candidate.\<close>
  "single_result singleCandidate =
     (let economicIsBest = (economicScore singleCandidate \<ge> environmentalScore singleCandidate
                            \<and> economicScore singleCandidate \<ge> socialScore singleCandidate);
          environmentalIsBest = (environmentalScore singleCandidate \<ge> economicScore singleCandidate
                            \<and> environmentalScore singleCandidate \<ge> socialScore singleCandidate)
      in if economicIsBest then [recommend Economic singleCandidate]
         else if environmentalIsBest then [recommend Environmental singleCandidate]
         else [recommend Social singleCandidate])"

text \<open>
  The part of the matcher after the filter. \<open>srt\<close> is the engine's \<open>Array.prototype.sort\<close>:
  the comparators of the source are not consistent orderings (they tie within a margin),
  and for such a comparator the order the engine produces is implementation-defined; the
  properties below hold for every sort that permutes. The sorts work in place:
  \<open>candidatesToUse\<close> is \<open>candidatesWithScores\<close> itself unless three candidates are valid,
  so the backfill reads the array as the three sorts left it.
\<close>

definition rank_multi :: "sorter \<Rightarrow> product \<Rightarrow> criteria \<Rightarrow> substitute list \<Rightarrow> substitute list" where
  \<comment> \<open>The branch for no candidate or several.\<close>
  "rank_multi srt product crit candidatesWithScores =
       (let currentScore = total_or_zero product;
            validCandidates =
              filter (\<lambda>c. total_or_zero (base c) \<ge> currentScore - 0.05) candidatesWithScores;
            candidatesToUse =
              (if length validCandidates \<ge> 3 then validCandidates else candidatesWithScores);
            byEconomic = srt (cmp_economic product currentScore) candidatesToUse;
            bestEconomic = first byEconomic;
            byEnvironmental = srt (cmp_environmental product currentScore) byEconomic;
            bestEnvironmental = first byEnvironmental;
            bySocial = srt (cmp_social product currentScore) byEnvironmental;
            bestSocial = first bySocial;
            candidatesWithScores =
              (if length validCandidates \<ge> 3 then candidatesWithScores else bySocial);
            st = add_best Social bestSocial
                   (add_best Environmental bestEnvironmental
                      (add_best Economic bestEconomic ([], [])));
            result = fst st;
            addedIds = snd st
        in if int (length result) < maxResults crit
           then
             let sortedByTotal =
                   srt (cmp_total currentScore)
                     (filter (\<lambda>c. prod_id (base c) \<notin> set addedIds
                                  \<and> total_or_zero (base c) \<ge> currentScore - 0.02)
                        candidatesWithScores)
             in result @ map (recommend Balanced)
                           (take (nat (maxResults crit - int (length result))) sortedByTotal)
           else result)"

definition rank_candidates :: "sorter \<Rightarrow> product \<Rightarrow> criteria \<Rightarrow> substitute list \<Rightarrow> substitute list" where
  "rank_candidates srt product crit candidatesWithScores =
     (case candidatesWithScores of
        [singleCandidate] \<Rightarrow> single_result singleCandidate
      | _ \<Rightarrow> rank_multi srt product crit candidatesWithScores)"

definition findSmartSubstitutes ::
    "sorter \<Rightarrow> product \<Rightarrow> product list \<Rightarrow> criteria \<Rightarrow> substitute list" where
  "findSmartSubstitutes srt product availableProducts crit =
     (let candidates = filter (passes_filter product crit) availableProducts;
          candidatesWithScores = map (annotate product) candidates
      in rank_candidates srt product crit candidatesWithScores)"

definition sort_ok :: "sorter \<Rightarrow> bool" where
  \<comment> \<open>What the properties need of the engine's sort: it permutes the array.\<close>
  "sort_ok srt = (\<forall>cmp xs. mset (srt cmp xs) = mset xs)"

subsection \<open>Inputs of the examples\<close>

definition matchProduct :: "nat \<Rightarrow> string \<Rightarrow> string \<Rightarrow> string \<Rightarrow> real \<Rightarrow> real \<Rightarrow> product" where
  \<comment> \<open>A product with an identifier, a bar code, a name, a category, a price and a total,
      its breakdown as the test-suite's constructor computes it.\<close>
  "matchProduct i code nm cat pr sc =
     bare_product\<lparr>prod_id := Some i, barcode := Some code, name := Some nm,
       category := Some cat, price := Some pr, carbon_footprint := Some 1,
       sustainability_score := Some \<lparr>total_s = Some sc,
         breakdown = Some \<lparr>economic = Some (sc * 0.4), environmental = Some (sc * 0.4),
                           social = Some (sc * 0.2)\<rparr>,
         weights = None\<rparr>\<rparr>"

definition exampleProduct :: product where
  "exampleProduct = matchProduct 1 ''p1'' ''Product 1'' ''test'' 10 0.5"

definition with_breakdown :: "real \<Rightarrow> real \<Rightarrow> real \<Rightarrow> product \<Rightarrow> product" where
  \<comment> \<open>The product with another breakdown, its total kept.\<close>
  "with_breakdown e v s p =
     p\<lparr>sustainability_score := Some \<lparr>total_s = total_opt p,
         breakdown = Some \<lparr>economic = Some e, environmental = Some v, social = Some s\<rparr>,
         weights = None\<rparr>\<rparr>"

subsection \<open>The result, taken apart\<close>

definition pushed :: "recommendation \<Rightarrow> substitute option \<Rightarrow> nat option list \<Rightarrow> substitute list" where
  \<comment> \<open>What one conditional push appends to the result: nothing, or the labelled best.\<close>
  "pushed t best added =
     (case best of
        None \<Rightarrow> []
      | Some b \<Rightarrow> if prod_id (base b) \<in> set added then [] else [recommend t b])"

definition sub_id :: "substitute \<Rightarrow> nat option" where
  "sub_id c = prod_id (base c)"

definition count_type :: "recommendation \<Rightarrow> substitute list \<Rightarrow> nat" where
  "count_type t xs = length (filter (\<lambda>c. recommendationType c = Some t) xs)"

definition milkProduct :: product where
  "milkProduct = matchProduct 1 ''p1'' ''Leche entera'' ''leche entera'' 1 0.8"

definition milkCandidate :: product where
  "milkCandidate = matchProduct 2 ''p2'' ''Leche fresca'' ''leche entera'' 1 0.7"

definition exampleCandidates :: "product list" where
  \<comment> \<open>Three candidates of the same total, dearer to cheaper.\<close>
  "exampleCandidates =
     [matchProduct 2 ''p2'' ''Product 2'' ''test'' 12 0.7,
      matchProduct 3 ''p3'' ''Product 3'' ''test'' 11 0.7,
      matchProduct 4 ''p4'' ''Product 4'' ''test'' 10 0.7]"

definition repeatedCandidates :: "product list" where
  \<comment> \<open>A pool that lists one product twice.\<close>
  "repeatedCandidates =
     [matchProduct 4 ''p4'' ''Product 4'' ''test'' 10 0.7,
      matchProduct 2 ''p2'' ''Product 2'' ''test'' 12 0.7,
      matchProduct 2 ''p2'' ''Product 2'' ''test'' 12 0.7]"

definition splitCandidates :: "product list" where
  \<comment> \<open>Two candidates, one best in the economic dimension and one in the environmental.\<close>
  "splitCandidates =
     [with_breakdown 0.9 0.1 0.1 (matchProduct 2 ''p2'' ''Product 2'' ''test'' 10 0.7),
      with_breakdown 0.1 0.9 0.1 (matchProduct 3 ''p3'' ''Product 3'' ''test'' 10 0.7)]"

section \<open>The optimizer over an explicit store\<close>

text \<open>
  To say what a call leaves unchanged, the arrays of products and the product objects are
  cells of a store, and an array holds the addresses of its elements. A store is the list
  of its cells; an address is an index; allocation appends. The numeric tables of the DP
  strategy hold no product and stay values. The properties of an object are read from its
  cell as a whole: the nested score object of a copy, which the source shares with the
  original and never writes, is part of the value.
\<close>

type_synonym addr = nat

datatype cell = Obj product | Arr "addr list"

type_synonym store = "cell list"

definition alloc :: "store \<Rightarrow> cell \<Rightarrow> addr \<times> store" where
  "alloc h c = (length h, h @ [c])"

definition arr_of :: "store \<Rightarrow> addr \<Rightarrow> addr list" where
  \<comment> \<open>The elements of the array at an address (of a well-typed store).\<close>
  "arr_of h a = (if a < length h then (case h ! a of Arr xs \<Rightarrow> xs | Obj _ \<Rightarrow> []) else [])"

definition obj_of :: "store \<Rightarrow> addr \<Rightarrow> product" where
  \<comment> \<open>The object at an address (of a well-typed store).\<close>
  "obj_of h a =
     (if a < length h then (case h ! a of Obj p \<Rightarrow> p | Arr _ \<Rightarrow> bare_product)
      else bare_product)"

definition arr_push :: "store \<Rightarrow> addr \<Rightarrow> addr \<Rightarrow> store" where
  \<comment> \<open>\<open>xs.push(x)\<close>, in place.\<close>
  "arr_push h a x = h[a := Arr (arr_of h a @ [x])]"

definition arr_sort :: "store \<Rightarrow> addr \<Rightarrow> (product \<Rightarrow> product \<Rightarrow> real) \<Rightarrow> store" where
  \<comment> \<open>\<open>xs.sort(cmp)\<close>, in place.\<close>
  "arr_sort h a cmp = h[a := Arr (sort_by (\<lambda>x y. cmp (obj_of h x) (obj_of h y)) (arr_of h a))]"

definition arr_reverse :: "store \<Rightarrow> addr \<Rightarrow> store" where
  \<comment> \<open>\<open>xs.reverse()\<close>, in place.\<close>
  "arr_reverse h a = h[a := Arr (rev (arr_of h a))]"

definition arr_filter :: "store \<Rightarrow> addr \<Rightarrow> (product \<Rightarrow> bool) \<Rightarrow> addr \<times> store" where
  \<comment> \<open>\<open>xs.filter(pred)\<close>: a new array of the same objects.\<close>
  "arr_filter h a pred = alloc h (Arr (filter (\<lambda>x. pred (obj_of h x)) (arr_of h a)))"

fun copy_all :: "store \<Rightarrow> addr list \<Rightarrow> (product \<Rightarrow> product) \<Rightarrow> addr list \<times> store" where
  "copy_all h [] f = ([], h)"
| "copy_all h (x # xs) f =
     (let (a, h1) = alloc h (Obj (f (obj_of h x)));
          (as, h2) = copy_all h1 xs f
      in (a # as, h2))"

definition arr_map_copy :: "store \<Rightarrow> addr \<Rightarrow> (product \<Rightarrow> product) \<Rightarrow> addr \<times> store" where
  \<comment> \<open>\<open>xs.map(p => ({...p, ...}))\<close>: a new array of new objects.\<close>
  "arr_map_copy h a f = (let (as, h1) = copy_all h (arr_of h a) f in alloc h1 (Arr as))"

definition deref :: "store \<Rightarrow> addr \<Rightarrow> product list" where
  \<comment> \<open>The products an array holds.\<close>
  "deref h a = map (obj_of h) (arr_of h a)"

fun st_greedy_loop :: "store \<Rightarrow> addr list \<Rightarrow> real \<Rightarrow> real \<Rightarrow> addr \<Rightarrow> store" where
  "st_greedy_loop h [] remainingBudget minScore sel = h"
| "st_greedy_loop h (x # rest) remainingBudget minScore sel =
     (let cost = item_cost (obj_of h x);
          score = score_total (obj_of h x)
      in if cost \<le> remainingBudget \<and> score \<ge> minScore
         then st_greedy_loop (arr_push h sel x) rest (remainingBudget - cost) minScore sel
         else st_greedy_loop h rest remainingBudget minScore sel)"

definition st_greedyOptimization ::
    "store \<Rightarrow> addr \<Rightarrow> real \<Rightarrow> real \<Rightarrow> (addr \<times> string) \<times> store" where
  "st_greedyOptimization h products maxBudget minScore =
     (let (sorted, h1) = alloc h (Arr (arr_of h products));
          h2 = arr_sort h1 sorted (\<lambda>a b. the (ratio b) - the (ratio a));
          (sel, h3) = alloc h2 (Arr []);
          h4 = st_greedy_loop h3 (arr_of h3 sorted) maxBudget minScore sel
      in ((sel, msg_greedy (length (arr_of h4 sel))), h4))"

fun st_reconstruct :: "store \<Rightarrow> (addr \<times> bool list) list \<Rightarrow> int \<Rightarrow> addr \<Rightarrow> store" where
  "st_reconstruct h [] w result = h"
| "st_reconstruct h ((x, sel_row) # rest) w result =
     (if row_get sel_row w = Some True
      then st_reconstruct (arr_push h result x) rest (w - cost_cents (obj_of h x)) result
      else st_reconstruct h rest w result)"

definition st_dynamicProgrammingOptimization ::
    "store \<Rightarrow> addr \<Rightarrow> real \<Rightarrow> real \<Rightarrow> (error + addr \<times> string) \<times> store" where
  "st_dynamicProgrammingOptimization h products maxBudget minScore =
     (let (validProducts, h1) = arr_filter h products (\<lambda>p. score_total p \<ge> minScore)
      in if arr_of h1 validProducts = []
         then let (sel, h2) = alloc h1 (Arr []) in (Inr (sel, msg_none_min), h2)
         else
           let budgetCents = \<lfloor>maxBudget * 100\<rfloor>
           in if \<not> valid_array_length (budgetCents + 1) then (Inl RangeError, h1)
              else
                let row0 = replicate (nat (budgetCents + 1)) 0;
                    sel = dp_fill (deref h1 validProducts) row0;
                    (result, h2) = alloc h1 (Arr []);
                    h3 = st_reconstruct h2 (rev (zip (arr_of h2 validProducts) sel))
                           budgetCents result;
                    h4 = arr_reverse h3 result
                in (Inr (result, msg_dp (length (arr_of h4 result))), h4))"

definition summarize ::
    "product list \<Rightarrow> product list \<Rightarrow> real \<Rightarrow> string \<Rightarrow> optimization_result" where
  \<comment> \<open>The statistics of \<^const>\<open>optimizeShoppingList\<close>, from the selected products and the
      original ones.\<close>
  "summarize sel products maxBudget msg =
     (let totalCost = (\<Sum>p\<leftarrow>sel. item_cost p);
          totalScore = (\<Sum>p\<leftarrow>sel. score_total p * or_one (quantity p));
          totalCarbon = (\<Sum>p\<leftarrow>sel. or_zero (carbon_footprint p) * or_one (quantity p));
          originalCost = (\<Sum>p\<leftarrow>products. item_cost p);
          originalCarbon =
            (\<Sum>p\<leftarrow>products. or_zero (carbon_footprint p) * or_one (quantity p))
      in \<lparr>selected = sel,
          totalCost = round2 totalCost,
          totalScore = round2 totalScore,
          totalCarbon = round2 totalCarbon,
          savings =
            \<lparr>sv_economic = max 0 (round2 (originalCost - totalCost)),
             sv_carbon = max 0 (round2 (originalCarbon - totalCarbon)),
             sv_percentage =
               Some (if originalCost > 0
                     then js_round ((originalCost - totalCost) / originalCost * 100)
                     else 0)\<rparr>,
          budgetUsed =
            (if maxBudget = 0 then None else Some (round2 (totalCost / maxBudget))),
          message = msg\<rparr>)"

text \<open>The result object over the store: the address of \<open>selected\<close>, and the object read back.\<close>

record st_result =
  selected_at :: addr
  read_back :: optimization_result

definition st_optimizeShoppingList ::
    "store \<Rightarrow> addr \<Rightarrow> real \<Rightarrow> optimize_options \<Rightarrow> (error + st_result) \<times> store" where
  "st_optimizeShoppingList h products maxBudget options =
     (let (validProducts, h1) = arr_filter h products valid_product
      in if arr_of h1 validProducts = []
         then let (sel, h2) = alloc h1 (Arr [])
              in (Inr \<lparr>selected_at = sel, read_back = empty_result\<rparr>, h2)
         else
           let (productsWithRatio, h2) =
                 arr_map_copy h1 validProducts
                   (\<lambda>product. product\<lparr>ratio := Some (score_total product / the (price product))\<rparr>);
               (result, h3) =
                 (if opt_prioritizeSustainability options
                  then let (r, h') = st_greedyOptimization h2 productsWithRatio maxBudget
                                       (opt_minScore options)
                       in (Inr r, h')
                  else st_dynamicProgrammingOptimization h2 productsWithRatio maxBudget
                         (opt_minScore options))
           in case result of
                Inl e \<Rightarrow> (Inl e, h3)
              | Inr (sel, msg) \<Rightarrow>
                  (Inr \<lparr>selected_at = sel,
                         read_back = summarize (deref h3 sel) (deref h3 products) maxBudget msg\<rparr>,
                   h3))"

definition well_typed :: "store \<Rightarrow> addr \<Rightarrow> bool" where
  \<comment> \<open>The address holds an array, whose elements are addresses of objects.\<close>
  "well_typed h a =
     (a < length h \<and> (\<exists>xs. h ! a = Arr xs \<and> list_all (\<lambda>x. x < length h \<and> (\<exists>p. h ! x = Obj p)) xs))"

definition store_of :: "product list \<Rightarrow> store" where
  \<comment> \<open>A store holding the products, then the array of their addresses.\<close>
  "store_of ps = map Obj ps @ [Arr [0..<length ps]]"

definition untouched :: "store \<Rightarrow> store \<Rightarrow> bool" where
  \<comment> \<open>Every cell of the first store is a cell of the second, at its address and unchanged.\<close>
  "untouched h h' = (length h \<le> length h' \<and> take (length h) h' = h)"

subsection \<open>The two iterations on addresses\<close>

text \<open>What the two iterations push, as functions of the objects the addresses hold.\<close>

fun greedy_addrs :: "(addr \<Rightarrow> product) \<Rightarrow> addr list \<Rightarrow> real \<Rightarrow> real \<Rightarrow> addr list \<Rightarrow> addr list" where
  "greedy_addrs g [] remainingBudget minScore acc = acc"
| "greedy_addrs g (x # rest) remainingBudget minScore acc =
     (if item_cost (g x) \<le> remainingBudget \<and> score_total (g x) \<ge> minScore
      then greedy_addrs g rest (remainingBudget - item_cost (g x)) minScore (acc @ [x])
      else greedy_addrs g rest remainingBudget minScore acc)"

fun reconstruct_addrs ::
    "(addr \<Rightarrow> product) \<Rightarrow> (addr \<times> bool list) list \<Rightarrow> int \<Rightarrow> addr list \<Rightarrow> addr list" where
  "reconstruct_addrs g [] w acc = acc"
| "reconstruct_addrs g ((x, sel_row) # rest) w acc =
     (if row_get sel_row w = Some True
      then reconstruct_addrs g rest (w - cost_cents (g x)) (acc @ [x])
      else reconstruct_addrs g rest w acc)"

subsection \<open>The entry point over the store, taken apart\<close>

definition add_ratio :: "product \<Rightarrow> product" where
  "add_ratio product = product\<lparr>ratio := Some (score_total product / the (price product))\<rparr>"

definition st_strategy ::
    "store \<Rightarrow> addr \<Rightarrow> real \<Rightarrow> optimize_options \<Rightarrow> (error + addr \<times> string) \<times> store" where
  "st_strategy h a maxBudget options =
     (if opt_prioritizeSustainability options
      then (Inr (fst (st_greedyOptimization h a maxBudget (opt_minScore options))),
            snd (st_greedyOptimization h a maxBudget (opt_minScore options)))
      else st_dynamicProgrammingOptimization h a maxBudget (opt_minScore options))"

section \<open>Properties of the scorer\<close>

lemma round2_bounds: "0 \<le> x \<Longrightarrow> x \<le> 1 \<Longrightarrow> 0 \<le> round2 x \<and> round2 x \<le> 1"
proof -
  assume a: "0 \<le> x" "x \<le> 1"
  have "0 \<le> js_round (x * 100)" unfolding js_round_def using a by simp
  moreover have "js_round (x * 100) \<le> 100" unfolding js_round_def using a by (simp add: floor_le_iff)
  ultimately show ?thesis unfolding round2_def by simp
qed


lemma round2_strict: "x + 1 / 100 \<le> y \<Longrightarrow> round2 x < round2 y"
proof -
  assume a: "x + 1 / 100 \<le> y"
  have "real_of_int \<lfloor>x * 100 + 1 / 2\<rfloor> \<le> x * 100 + 1 / 2" by (rule of_int_floor_le)
  then have "real_of_int \<lfloor>x * 100 + 1 / 2\<rfloor> + 1 \<le> y * 100 + 1 / 2" using a by linarith
  then have "real_of_int (\<lfloor>x * 100 + 1 / 2\<rfloor> + 1) \<le> y * 100 + 1 / 2" by simp
  then have "\<lfloor>x * 100 + 1 / 2\<rfloor> + 1 \<le> \<lfloor>y * 100 + 1 / 2\<rfloor>" by (simp only: le_floor_iff)
  then have "js_round (x * 100) < js_round (y * 100)" unfolding js_round_def by simp
  then show ?thesis unfolding round2_def by (simp add: divide_strict_right_mono)
qed

lemma clamp_bounds: "0 \<le> max 0 (min 1 (x::real)) \<and> max 0 (min 1 x) \<le> 1"
  by simp

lemma economic_bounds: "0 \<le> calculateEconomicScore p \<and> calculateEconomicScore p \<le> 1"
  unfolding calculateEconomicScore_def Let_def using clamp_bounds by simp

lemma environmental_bounds:
  "calculateEnvironmentalScore p = Some v \<Longrightarrow> 0 \<le> v \<and> v \<le> 1"
  unfolding calculateEnvironmentalScore_def Let_def by auto

lemma if_bump: "(if c then s + d else s) = s + (if c then d else (0::real))"
  by simp

lemma environmental_alt:
  "calculateEnvironmentalScore p
     = map_option (\<lambda>g. max 0 (min 1 (carbon_blend p g + env_bonus p))) (eco_base p)"
proof -
  have "calculateEnvironmentalScore p =
     (let score = eco_base p;
        score = (if truthy_num (carbon_footprint p)
                 then let carbon = the (carbon_footprint p); carbonScore = max 0 (1 - carbon / 5)
                      in map_option (\<lambda>s. s * 0.7 + carbonScore * 0.3) score
                 else score);
        packaging = toLowerCase (or_empty (off_field packaging p));
        score = (if str_includes packaging ''reciclable'' \<or> str_includes packaging ''biodegradable''
                 then map_option (\<lambda>s. s + 0.1) score else score);
        origins = or_empty (off_field origins p);
        score = (if origins \<noteq> [] \<and> \<not> str_includes (toLowerCase origins) ''import''
                 then map_option (\<lambda>s. s + 0.05) score else score)
    in map_option (\<lambda>s. max 0 (min 1 s)) score)"
    unfolding calculateEnvironmentalScore_def eco_base_def Let_def ..
  also have "\<dots> = map_option (\<lambda>g. max 0 (min 1 (carbon_blend p g + env_bonus p))) (eco_base p)"
    by (cases "eco_base p") (auto simp: Let_def carbon_blend_def env_bonus_def algebra_simps)
  finally show ?thesis .
qed

lemma eco_base_number:
  assumes "\<forall>g. eco_score p = Some g \<longrightarrow> g \<notin> set inherited_keys"
  shows "\<exists>b. eco_base p = Some b"
proof (cases "eco_score p")
  case None
  then show ?thesis by (intro exI[of _ "1 / 2"]) (simp add: eco_base_def)
next
  case (Some g)
  with assms have "g \<notin> set inherited_keys" by simp
  then have n: "ecoScoreMap g \<noteq> Inherited" by (simp add: ecoScoreMap_def)
  show ?thesis
  proof (cases "ecoScoreMap g")
    case Absent
    then show ?thesis using Some by (intro exI[of _ "1 / 2"]) (simp add: eco_base_def)
  next
    case (Own v)
    then show ?thesis using Some
      by (intro exI[of _ "if g = [] then 1 / 2 else v"]) (simp add: eco_base_def)
  next
    case Inherited
    with n show ?thesis by simp
  qed
qed

lemma environmental_number:
  assumes "\<forall>g. eco_score p = Some g \<longrightarrow> g \<notin> set inherited_keys"
  shows "\<exists>v. calculateEnvironmentalScore p = Some v"
  using eco_base_number[OF assms] unfolding environmental_alt by auto

lemma social_bounds: "0 \<le> calculateSocialScore p \<and> calculateSocialScore p \<le> 1"
  unfolding calculateSocialScore_def Let_def by (rule clamp_bounds)

lemma weighted_bounds:
  fixes e v s :: real
  assumes "0 \<le> e \<and> e \<le> 1" "0 \<le> v \<and> v \<le> 1" "0 \<le> s \<and> s \<le> 1"
  shows "0 \<le> e * 0.4 + v * 0.4 + s * 0.2" "e * 0.4 + v * 0.4 + s * 0.2 \<le> 1"
  using assms by auto

text \<open>
  Where the eco-score names no inherited property, the total and the three components are
  numbers between 0 and 1, whatever fields the product lacks.
\<close>

lemma scorer_bounds_own_keys:
  assumes "\<forall>g. eco_score p = Some g \<longrightarrow> g \<notin> set inherited_keys"
  shows "\<exists>t e v s. total_s (calculateSustainabilityScore p default_weights) = Some t
     \<and> breakdown (calculateSustainabilityScore p default_weights)
         = Some \<lparr>economic = Some e, environmental = Some v, social = Some s\<rparr>
     \<and> 0 \<le> t \<and> t \<le> 1 \<and> 0 \<le> e \<and> e \<le> 1 \<and> 0 \<le> v \<and> v \<le> 1 \<and> 0 \<le> s \<and> s \<le> 1"
proof -
  define e where "e = calculateEconomicScore p"
  define s where "s = calculateSocialScore p"
  from environmental_number[OF assms] obtain v where v: "calculateEnvironmentalScore p = Some v" ..
  have be: "0 \<le> e \<and> e \<le> 1" unfolding e_def by (rule economic_bounds)
  have bv: "0 \<le> v \<and> v \<le> 1" using environmental_bounds[OF v] .
  have bs: "0 \<le> s \<and> s \<le> 1" unfolding s_def by (rule social_bounds)
  have t: "0 \<le> e * 0.4 + v * 0.4 + s * 0.2" "e * 0.4 + v * 0.4 + s * 0.2 \<le> 1"
    using weighted_bounds[OF be bv bs] by blast+
  have rt: "0 \<le> round2 (e * 0.4 + v * 0.4 + s * 0.2) \<and> round2 (e * 0.4 + v * 0.4 + s * 0.2) \<le> 1"
    using round2_bounds[OF t] .
  have re: "0 \<le> round2 e \<and> round2 e \<le> 1" using round2_bounds be by blast
  have rv: "0 \<le> round2 v \<and> round2 v \<le> 1" using round2_bounds bv by blast
  have rs: "0 \<le> round2 s \<and> round2 s \<le> 1" using round2_bounds bs by blast
  have eq: "calculateSustainabilityScore p default_weights =
      \<lparr>total_s = Some (round2 (e * 0.4 + v * 0.4 + s * 0.2)),
       breakdown = Some \<lparr>economic = Some (round2 e), environmental = Some (round2 v),
                         social = Some (round2 s)\<rparr>,
       weights = Some default_weights\<rparr>"
    unfolding calculateSustainabilityScore_def Let_def v e_def s_def
    by (simp add: default_weights_def)
  show ?thesis unfolding eq using rt re rv rs by simp
qed


text \<open>
  Claim C6, as stated, fails: without a price the code returns 0.5 before it looks at the
  nutrition grade, and a price of 0 counts as no price. Here a product with grade A and no
  price scores 0.5 where the specification's formula gives 0.6, and one with grade A and
  price 0 scores 0.5 where the formula of the claim gives 1.
\<close>

theorem economic_counterexample:
  "calculateEconomicScore (bare_product\<lparr>nutrition_grade := Some ''A''\<rparr>) = 5 / 10
   \<and> economic_spec (bare_product\<lparr>nutrition_grade := Some ''A''\<rparr>) = 6 / 10
   \<and> calculateEconomicScore (bare_product\<lparr>price := Some 0, nutrition_grade := Some ''A''\<rparr>) = 5 / 10
   \<and> min 1 (1 - min (0 / 50) 1 + 0.1) = (1::real)"
  by (simp add: calculateEconomicScore_def economic_spec_def bare_product_def truthy_num_def)

text \<open>
  Claim C6, amended. A product whose price is missing or 0 has economic sub-score 0.5, with
  no nutrition bonus. For every other price the sub-score is the specification's formula:
  \<open>1 - min (price / 50) 1\<close>, plus 0.1 for nutrition grade A or B, clamped to \<open>[0, 1]\<close>;
  with grade A that is \<open>min 1 (1 - min (price / 50) 1 + 0.1)\<close>.
\<close>

theorem economic_score_formula:
  "(price p = None \<or> price p = Some 0 \<longrightarrow> calculateEconomicScore p = 5 / 10)
   \<and> (\<forall>x. price p = Some x \<and> x \<noteq> 0 \<longrightarrow>
        calculateEconomicScore p = economic_spec p
        \<and> (nutrition_grade p = Some ''A'' \<longrightarrow>
             calculateEconomicScore p = min 1 (1 - min (x / 50) 1 + 1 / 10)))"
  by (auto simp: calculateEconomicScore_def economic_spec_def truthy_num_def Let_def)

theorem economic_score_formula_witness:
  "price mockProduct = Some (11 / 2) \<and> (11 / 2 :: real) \<noteq> 0
   \<and> nutrition_grade mockProduct = Some ''A''
   \<and> calculateEconomicScore mockProduct = economic_spec mockProduct
   \<and> calculateEconomicScore mockProduct = 99 / 100"
proof -
  have p: "price mockProduct = Some (11 / 2)" "nutrition_grade mockProduct = Some ''A''"
    by (simp_all add: mockProduct_def bare_product_def)
  have "calculateEconomicScore mockProduct = economic_spec mockProduct
        \<and> (nutrition_grade mockProduct = Some ''A'' \<longrightarrow>
             calculateEconomicScore mockProduct = min 1 (1 - min ((11 / 2) / 50) 1 + 1 / 10))"
    using economic_score_formula[of mockProduct, THEN conjunct2, THEN spec, of "11 / 2"] p
    by simp
  then show ?thesis using p by simp
qed

lemma env_bonus_bounds: "0 \<le> env_bonus p \<and> env_bonus p \<le> 15 / 100"
  unfolding env_bonus_def by simp


lemma carbon_blend_E:
  assumes "\<forall>c. carbon_footprint p = Some c \<longrightarrow> 0 \<le> c"
  shows "0 \<le> carbon_blend p (2 / 10) \<and> carbon_blend p (2 / 10) \<le> 44 / 100"
proof (cases "truthy_num (carbon_footprint p)")
  case True
  then obtain c where c: "carbon_footprint p = Some c" by (auto simp: truthy_num_def split: option.splits)
  define m where "m = max 0 (1 - c / 5)"
  from assms c have "0 \<le> c" by simp
  then have m: "0 \<le> m" "m \<le> 1" unfolding m_def by simp_all
  have "carbon_blend p (2 / 10) = 14 / 100 + m * (3 / 10)"
    using True c by (simp add: carbon_blend_def m_def)
  then show ?thesis using m by simp
next
  case False
  then show ?thesis by (simp add: carbon_blend_def)
qed

lemma carbon_blend_gap: "carbon_blend p (2 / 10) + 56 / 100 \<le> carbon_blend p 1"
  unfolding carbon_blend_def by simp

lemma env_gap:
  assumes "\<forall>c. carbon_footprint p = Some c \<longrightarrow> 0 \<le> c"
  shows "\<exists>vA vE. calculateEnvironmentalScore (p\<lparr>eco_score := Some ''A''\<rparr>) = Some vA
           \<and> calculateEnvironmentalScore (p\<lparr>eco_score := Some ''E''\<rparr>) = Some vE
           \<and> vE + 41 / 100 \<le> vA"
proof -
  have bA: "eco_base (p\<lparr>eco_score := Some ''A''\<rparr>) = Some 1"
    and bE: "eco_base (p\<lparr>eco_score := Some ''E''\<rparr>) = Some (2 / 10)"
    by (simp_all add: eco_base_def ecoScoreMap_def)
  have cb: "\<And>x g. carbon_blend (p\<lparr>eco_score := x\<rparr>) g = carbon_blend p g"
    by (simp add: carbon_blend_def)
  have eb: "\<And>x. env_bonus (p\<lparr>eco_score := x\<rparr>) = env_bonus p"
    by (simp add: env_bonus_def off_field_def)
  have "max 0 (min 1 (carbon_blend p (2 / 10) + env_bonus p)) + 41 / 100
          \<le> max 0 (min 1 (carbon_blend p 1 + env_bonus p))"
    using env_bonus_bounds[of p] carbon_blend_E[OF assms] carbon_blend_gap[of p]
    by linarith
  moreover have "calculateEnvironmentalScore (p\<lparr>eco_score := Some ''A''\<rparr>)
      = Some (max 0 (min 1 (carbon_blend p 1 + env_bonus p)))"
    unfolding environmental_alt bA cb eb by simp
  moreover have "calculateEnvironmentalScore (p\<lparr>eco_score := Some ''E''\<rparr>)
      = Some (max 0 (min 1 (carbon_blend p (2 / 10) + env_bonus p)))"
    unfolding environmental_alt bE cb eb by simp
  ultimately show ?thesis by blast
qed

lemma eco_update_irrelevant:
  "calculateEconomicScore (p\<lparr>eco_score := x\<rparr>) = calculateEconomicScore p"
  "calculateSocialScore (p\<lparr>eco_score := x\<rparr>) = calculateSocialScore p"
proof -
  have o: "\<And>f. off_field f (p\<lparr>eco_score := x\<rparr>) = off_field f p" by (simp add: off_field_def)
  show "calculateEconomicScore (p\<lparr>eco_score := x\<rparr>) = calculateEconomicScore p"
    unfolding calculateEconomicScore_def by simp
  show "calculateSocialScore (p\<lparr>eco_score := x\<rparr>) = calculateSocialScore p"
    unfolding calculateSocialScore_def o ..
qed

text \<open>
  Claim C9. Of two products that differ in the eco-label grade only, the one graded A gets
  a strictly higher total than the one graded E, with the default weights. The carbon
  footprint, when present, is non-negative, as the data model has it.
\<close>

theorem eco_grade_monotone:
  assumes "\<forall>c. carbon_footprint p = Some c \<longrightarrow> 0 \<le> c"
  shows "\<exists>a e. total_s (calculateSustainabilityScore (p\<lparr>eco_score := Some ''A''\<rparr>) default_weights) = Some a
     \<and> total_s (calculateSustainabilityScore (p\<lparr>eco_score := Some ''E''\<rparr>) default_weights) = Some e
     \<and> e < a"
proof -
  let ?A = "p\<lparr>eco_score := Some ''A''\<rparr>" and ?E = "p\<lparr>eco_score := Some ''E''\<rparr>"
  define ec where "ec = calculateEconomicScore p"
  define so where "so = calculateSocialScore p"
  from env_gap[OF assms] obtain vA vE where
    vA: "calculateEnvironmentalScore ?A = Some vA" and
    vE: "calculateEnvironmentalScore ?E = Some vE" and
    gap: "vE + 41 / 100 \<le> vA" by blast
  have "(ec * (4 / 10) + vE * (4 / 10) + so * (2 / 10)) + 1 / 100
      \<le> ec * (4 / 10) + vA * (4 / 10) + so * (2 / 10)"
    using gap by simp
  from round2_strict[OF this]
  have lt: "round2 (ec * (4 / 10) + vE * (4 / 10) + so * (2 / 10))
      < round2 (ec * (4 / 10) + vA * (4 / 10) + so * (2 / 10))" .
  have tA: "total_s (calculateSustainabilityScore ?A default_weights)
       = Some (round2 (ec * (4 / 10) + vA * (4 / 10) + so * (2 / 10)))"
    unfolding calculateSustainabilityScore_def Let_def eco_update_irrelevant ec_def so_def vA
    by (simp add: default_weights_def)
  have tE: "total_s (calculateSustainabilityScore ?E default_weights)
       = Some (round2 (ec * (4 / 10) + vE * (4 / 10) + so * (2 / 10)))"
    unfolding calculateSustainabilityScore_def Let_def eco_update_irrelevant ec_def so_def vE
    by (simp add: default_weights_def)
  show ?thesis unfolding tA tE using lt by simp
qed

theorem eco_grade_monotone_witness:
  "carbon_footprint mockProduct = Some (6 / 5) \<and> (0::real) \<le> 6 / 5
   \<and> total_s (calculateSustainabilityScore (mockProduct\<lparr>eco_score := Some ''E''\<rparr>) default_weights)
       = Some (80 / 100)
   \<and> (\<exists>a e. total_s (calculateSustainabilityScore (mockProduct\<lparr>eco_score := Some ''A''\<rparr>) default_weights) = Some a
     \<and> total_s (calculateSustainabilityScore (mockProduct\<lparr>eco_score := Some ''E''\<rparr>) default_weights) = Some e
     \<and> e < a)"
proof -
  have h: "\<forall>c. carbon_footprint mockProduct = Some c \<longrightarrow> 0 \<le> c"
    by (simp add: mockProduct_def bare_product_def)
  have e: "total_s (calculateSustainabilityScore (mockProduct\<lparr>eco_score := Some ''E''\<rparr>) default_weights)
       = Some (80 / 100)"
    by code_simp
  have c: "carbon_footprint mockProduct = Some (6 / 5)"
    by (simp add: mockProduct_def bare_product_def)
  show ?thesis using c e eco_grade_monotone[OF h] by simp
qed

section \<open>Properties of the optimizer\<close>

subsection \<open>Sorting permutes\<close>

lemma mset_ins_by: "mset (ins_by cmp x ys) = add_mset x (mset ys)"
  by (induction ys) simp_all

lemma mset_foldl_ins_by:
  "mset (foldl (\<lambda>acc x. ins_by cmp x acc) acc xs) = mset acc + mset xs"
  by (induction xs arbitrary: acc) (simp_all add: mset_ins_by)

lemma mset_sort_by: "mset (sort_by cmp xs) = mset xs"
  by (simp add: sort_by_def mset_foldl_ins_by)

lemma set_sort_by: "set (sort_by cmp xs) = set xs"
  using mset_sort_by by (metis set_mset_mset)

lemma length_sort_by: "length (sort_by cmp xs) = length xs"
  using mset_sort_by by (metis size_mset)

subsection \<open>The greedy iteration\<close>



subsection \<open>The table of the DP strategy\<close>







subsection \<open>Rounding to cents, and the entry point unfolded\<close>




lemma optimize_empty:
  "filter valid_product products = [] \<Longrightarrow>
     optimizeShoppingList products maxBudget options = Inr empty_result"
  by (simp add: optimizeShoppingList_def)

lemma optimize_nonempty:
  assumes "filter valid_product products \<noteq> []"
  shows "optimizeShoppingList products maxBudget options =
     (case strategy_result products maxBudget options of
        Inl e \<Rightarrow> Inl e
      | Inr (sel, msg) \<Rightarrow>
          Inr \<lparr>selected = sel,
               totalCost = round2 (\<Sum>p\<leftarrow>sel. item_cost p),
               totalScore = round2 (\<Sum>p\<leftarrow>sel. score_total p * or_one (quantity p)),
               totalCarbon = round2 (\<Sum>p\<leftarrow>sel. or_zero (carbon_footprint p) * or_one (quantity p)),
               savings =
                 \<lparr>sv_economic = max 0 (round2 ((\<Sum>p\<leftarrow>products. item_cost p) - (\<Sum>p\<leftarrow>sel. item_cost p))),
                  sv_carbon = max 0 (round2 ((\<Sum>p\<leftarrow>products. or_zero (carbon_footprint p) * or_one (quantity p))
                       - (\<Sum>p\<leftarrow>sel. or_zero (carbon_footprint p) * or_one (quantity p)))),
                  sv_percentage =
                    Some (if (\<Sum>p\<leftarrow>products. item_cost p) > 0
                          then js_round (((\<Sum>p\<leftarrow>products. item_cost p) - (\<Sum>p\<leftarrow>sel. item_cost p))
                                 / (\<Sum>p\<leftarrow>products. item_cost p) * 100)
                          else 0)\<rparr>,
               budgetUsed = (if maxBudget = 0 then None
                             else Some (round2 ((\<Sum>p\<leftarrow>sel. item_cost p) / maxBudget))),
               message = msg\<rparr>)"
  using assms
  unfolding optimizeShoppingList_def strategy_result_def productsWithRatio_def Let_def
  by (simp only: if_False)

subsection \<open>The budget\<close>

lemma item_cost_ratio [simp]: "item_cost (p\<lparr>ratio := x\<rparr>) = item_cost p"
  by (simp add: item_cost_def)
















section \<open>Properties of the matcher\<close>

subsection \<open>The shape of the result\<close>

lemma sort_by_ok: "sort_ok sort_by"
  by (simp add: sort_ok_def mset_sort_by)

lemma sort_ok_set: "sort_ok srt \<Longrightarrow> set (srt cmp xs) = set xs"
  unfolding sort_ok_def by (metis set_mset_mset)

lemma sort_ok_length: "sort_ok srt \<Longrightarrow> length (srt cmp xs) = length xs"
  unfolding sort_ok_def by (metis size_mset)

lemma sort_ok_distinct_map:
  assumes "sort_ok srt"
  shows "distinct (map f (srt cmp xs)) = distinct (map f xs)"
proof -
  have "mset (map f (srt cmp xs)) = mset (map f xs)"
    using assms by (simp add: sort_ok_def)
  then show ?thesis by (rule mset_eq_imp_distinct_iff)
qed

lemma first_in_set: "first xs = Some x \<Longrightarrow> x \<in> set xs"
  by (auto simp: first_def split: list.splits)

lemma base_recommend [simp]: "base (recommend t c) = base c"
  by (simp add: recommend_def)

lemma type_recommend [simp]: "recommendationType (recommend t c) = Some t"
  by (simp add: recommend_def)

lemma base_annotate [simp]: "base (annotate product candidate) = candidate"
  by (simp add: annotate_def)

lemma add_best_pushed:
  "add_best t best (res, added) =
     (res @ pushed t best added, added @ map sub_id (pushed t best added))"
  by (simp add: add_best_def pushed_def sub_id_def split: option.splits)

lemma pushed_length: "length (pushed t best added) \<le> 1"
  by (simp add: pushed_def split: option.splits)

lemma pushed_cases:
  "pushed t best added = []
   \<or> (\<exists>b. best = Some b \<and> sub_id b \<notin> set added \<and> pushed t best added = [recommend t b])"
  by (simp add: pushed_def sub_id_def split: option.splits)

lemma sub_id_recommend [simp]: "sub_id (recommend t c) = sub_id c"
  by (simp add: sub_id_def)

lemma count_type_pushed:
  "count_type t (pushed t' best added) \<le> (if t = t' then 1 else 0)"
  using pushed_cases[of t' best added] by (auto simp: count_type_def)

lemma count_type_append: "count_type t (xs @ ys) = count_type t xs + count_type t ys"
  by (simp add: count_type_def)

lemma count_type_balanced:
  "count_type t (map (recommend Balanced) xs) = (if t = Balanced then length xs else 0)"
  by (induction xs) (auto simp: count_type_def)

lemma pushed_base: "x \<in> set (pushed t best added) \<Longrightarrow> \<exists>b. best = Some b \<and> base x = base b"
  using pushed_cases[of t best added] by auto

lemma rank_multi_structure:
  assumes ok: "sort_ok srt"
  shows "\<exists>bs fill.
      rank_multi srt product crit cws = bs @ map (recommend Balanced) fill
      \<and> length bs \<le> 3
      \<and> (fill = [] \<or> int (length bs + length fill) \<le> maxResults crit)
      \<and> count_type Economic bs \<le> 1 \<and> count_type Environmental bs \<le> 1
      \<and> count_type Social bs \<le> 1 \<and> count_type Balanced bs = 0
      \<and> (\<forall>x\<in>set bs. \<exists>c\<in>set cws. base x = base c)
      \<and> set fill \<subseteq> set cws
      \<and> (distinct (map sub_id cws) \<longrightarrow> distinct (map sub_id (bs @ fill)))"
proof -
  define cur where "cur = total_or_zero product"
  define valid where "valid = filter (\<lambda>c. total_or_zero (base c) \<ge> cur - 0.05) cws"
  define use where "use = (if length valid \<ge> 3 then valid else cws)"
  define byE where "byE = srt (cmp_economic product cur) use"
  define byV where "byV = srt (cmp_environmental product cur) byE"
  define byS where "byS = srt (cmp_social product cur) byV"
  define cws' where "cws' = (if length valid \<ge> 3 then cws else byS)"
  define pE where "pE = pushed Economic (first byE) []"
  define pV where "pV = pushed Environmental (first byV) ([] @ map sub_id pE)"
  define pS where "pS = pushed Social (first byS) (([] @ map sub_id pE) @ map sub_id pV)"
  define bs where "bs = ([] @ pE) @ pV @ pS"
  define added where "added = (([] @ map sub_id pE) @ map sub_id pV) @ map sub_id pS"
  define fill where "fill = (if int (length bs) < maxResults crit
      then take (nat (maxResults crit - int (length bs)))
             (srt (cmp_total cur)
                (filter (\<lambda>c. prod_id (base c) \<notin> set added \<and> total_or_zero (base c) \<ge> cur - 0.02) cws'))
      else [])"
  have st: "add_best Social (first byS)
             (add_best Environmental (first byV) (add_best Economic (first byE) ([], [])))
            = (bs, added)"
    unfolding add_best_pushed pE_def pV_def pS_def bs_def added_def by simp
  have eq: "rank_multi srt product crit cws = bs @ map (recommend Balanced) fill"
    unfolding rank_multi_def Let_def
    unfolding cur_def[symmetric] valid_def[symmetric] use_def[symmetric] byE_def[symmetric]
      byV_def[symmetric] byS_def[symmetric] cws'_def[symmetric] st fst_conv snd_conv
    unfolding fill_def by simp
  have set_use: "set use \<subseteq> set cws" unfolding use_def valid_def by auto
  have set_byE: "set byE = set use" unfolding byE_def by (rule sort_ok_set[OF ok])
  have set_byV: "set byV = set use" unfolding byV_def using sort_ok_set[OF ok] set_byE by simp
  have set_byS: "set byS = set use" unfolding byS_def using sort_ok_set[OF ok] set_byV by simp
  have set_cws': "set cws' = set cws"
  proof (cases "length valid \<ge> 3")
    case True then show ?thesis by (simp add: cws'_def)
  next
    case False then show ?thesis using set_byS by (simp add: cws'_def use_def)
  qed
  have lE: "length pE \<le> 1" and lV: "length pV \<le> 1" and lS: "length pS \<le> 1"
    unfolding pE_def pV_def pS_def by (rule pushed_length)+
  have len: "length bs \<le> 3" unfolding bs_def using lE lV lS by simp
  have lenfill: "fill = [] \<or> int (length bs + length fill) \<le> maxResults crit"
    unfolding fill_def by auto
  have ctE: "count_type t pE \<le> (if t = Economic then 1 else 0)"
    and ctV: "count_type t pV \<le> (if t = Environmental then 1 else 0)"
    and ctS: "count_type t pS \<le> (if t = Social then 1 else 0)" for t
    unfolding pE_def pV_def pS_def by (rule count_type_pushed)+
  have ct: "count_type t bs = count_type t pE + count_type t pV + count_type t pS" for t
    unfolding bs_def by (simp add: count_type_append)
  have cE: "count_type Economic bs \<le> 1"
    using ctE[of Economic] ctV[of Economic] ctS[of Economic] unfolding ct by simp
  have cV: "count_type Environmental bs \<le> 1"
    using ctE[of Environmental] ctV[of Environmental] ctS[of Environmental] unfolding ct by simp
  have cS: "count_type Social bs \<le> 1"
    using ctE[of Social] ctV[of Social] ctS[of Social] unfolding ct by simp
  have cB: "count_type Balanced bs = 0"
    using ctE[of Balanced] ctV[of Balanced] ctS[of Balanced] unfolding ct by simp
  have in_use: "\<exists>c\<in>set cws. base x = base c"
    if "x \<in> set (pushed t (first ys) ad)" "set ys = set use" for x t ys ad
  proof -
    from pushed_base[OF that(1)] obtain b where b: "first ys = Some b" "base x = base b" by blast
    from first_in_set[OF b(1)] that(2) set_use have "b \<in> set cws" by auto
    with b(2) show ?thesis by blast
  qed
  have inE: "x \<in> set pE \<Longrightarrow> \<exists>c\<in>set cws. base x = base c" for x
    unfolding pE_def by (rule in_use[OF _ set_byE])
  have inV: "x \<in> set pV \<Longrightarrow> \<exists>c\<in>set cws. base x = base c" for x
    unfolding pV_def by (rule in_use[OF _ set_byV])
  have inS: "x \<in> set pS \<Longrightarrow> \<exists>c\<in>set cws. base x = base c" for x
    unfolding pS_def by (rule in_use[OF _ set_byS])
  have bases: "\<forall>x\<in>set bs. \<exists>c\<in>set cws. base x = base c"
    unfolding bs_def using inE inV inS by auto
  have fill_sub: "set fill \<subseteq> set cws"
  proof
    fix x assume "x \<in> set fill"
    then have "x \<in> set (srt (cmp_total cur)
                (filter (\<lambda>c. prod_id (base c) \<notin> set added \<and> total_or_zero (base c) \<ge> cur - 0.02) cws'))"
      unfolding fill_def by (auto split: if_splits dest: in_set_takeD)
    then show "x \<in> set cws" unfolding sort_ok_set[OF ok] using set_cws' by auto
  qed
  have added: "added = map sub_id bs" unfolding added_def bs_def by simp
  have dbs: "distinct (map sub_id bs)"
  proof -
    have "distinct (map sub_id pE)" using lE by (cases pE) auto
    moreover have "distinct (map sub_id pV)" using lV by (cases pV) auto
    moreover have "distinct (map sub_id pS)" using lS by (cases pS) auto
    moreover have "set (map sub_id pV) \<inter> set (map sub_id pE) = {}"
      using pushed_cases[of Environmental "first byV" "[] @ map sub_id pE"]
      unfolding pV_def[symmetric] by auto
    moreover have "set (map sub_id pS) \<inter> (set (map sub_id pE) \<union> set (map sub_id pV)) = {}"
      using pushed_cases[of Social "first byS" "([] @ map sub_id pE) @ map sub_id pV"]
      unfolding pS_def[symmetric] by auto
    ultimately show ?thesis unfolding bs_def by auto
  qed
  have dist: "distinct (map sub_id (bs @ fill))" if d: "distinct (map sub_id cws)"
  proof -
    have "distinct (map sub_id use)" unfolding use_def valid_def using d
      by (simp add: distinct_map_filter)
    then have "distinct (map sub_id byS)"
      unfolding byS_def byV_def byE_def by (simp add: sort_ok_distinct_map[OF ok])
    then have d': "distinct (map sub_id cws')" unfolding cws'_def using d by simp
    have "distinct (map sub_id (srt (cmp_total cur)
                (filter (\<lambda>c. prod_id (base c) \<notin> set added \<and> total_or_zero (base c) \<ge> cur - 0.02) cws')))"
      using d' by (simp add: sort_ok_distinct_map[OF ok] distinct_map_filter)
    then have "distinct (take n (map sub_id (srt (cmp_total cur)
                (filter (\<lambda>c. prod_id (base c) \<notin> set added \<and> total_or_zero (base c) \<ge> cur - 0.02) cws'))))" for n
      by (rule distinct_take)
    then have dfill: "distinct (map sub_id fill)"
      unfolding fill_def by (simp add: take_map)
    have "sub_id x \<notin> set added" if "x \<in> set fill" for x
    proof -
      from that have "x \<in> set (srt (cmp_total cur)
                (filter (\<lambda>c. prod_id (base c) \<notin> set added \<and> total_or_zero (base c) \<ge> cur - 0.02) cws'))"
        unfolding fill_def by (auto split: if_splits dest: in_set_takeD)
      then show ?thesis unfolding sort_ok_set[OF ok] by (simp add: sub_id_def)
    qed
    then have "set (map sub_id bs) \<inter> set (map sub_id fill) = {}"
      unfolding added by (auto simp: image_iff) metis
    with dbs dfill show ?thesis by simp
  qed
  show ?thesis
    by (intro exI[of _ bs] exI[of _ fill] conjI impI)
       (use eq len lenfill cE cV cS cB bases fill_sub dist in simp_all)
qed

lemma single_structure:
  "length (single_result c) = 1
   \<and> count_type Economic (single_result c) \<le> 1 \<and> count_type Environmental (single_result c) \<le> 1
   \<and> count_type Social (single_result c) \<le> 1 \<and> count_type Balanced (single_result c) = 0
   \<and> (\<forall>x\<in>set (single_result c). base x = base c)
   \<and> map sub_id (single_result c) = [sub_id c]"
  by (simp add: single_result_def Let_def count_type_def)

lemma rank_structure:
  assumes ok: "sort_ok srt"
  shows "\<exists>bs fill.
      rank_candidates srt product crit cws = bs @ map (recommend Balanced) fill
      \<and> length bs \<le> 3
      \<and> (fill = [] \<or> int (length bs + length fill) \<le> maxResults crit)
      \<and> count_type Economic bs \<le> 1 \<and> count_type Environmental bs \<le> 1
      \<and> count_type Social bs \<le> 1 \<and> count_type Balanced bs = 0
      \<and> (\<forall>x\<in>set bs. \<exists>c\<in>set cws. base x = base c)
      \<and> set fill \<subseteq> set cws
      \<and> (distinct (map sub_id cws) \<longrightarrow> distinct (map sub_id (bs @ fill)))"
proof (cases "\<exists>c. cws = [c]")
  case True
  then obtain c where c: "cws = [c]" by blast
  have r: "rank_candidates srt product crit cws = single_result c @ map (recommend Balanced) []"
    by (simp add: rank_candidates_def c)
  show ?thesis
    by (intro exI[of _ "single_result c"] exI[of _ "[]"] conjI impI)
       (use r single_structure[of c] c in simp_all)
next
  case False
  then have "rank_candidates srt product crit cws = rank_multi srt product crit cws"
    by (auto simp: rank_candidates_def split: list.splits)
  then show ?thesis using rank_multi_structure[OF ok, of product crit cws] by simp
qed

lemma candidates_from_pool:
  "c \<in> set (map (annotate product) (filter (passes_filter product crit) pool))
     \<Longrightarrow> base c \<in> set pool \<and> passes_filter product crit (base c)"
  by auto

lemma categoryBonus_bounds:
  "0 \<le> categoryBonus product candidate \<and> categoryBonus product candidate \<le> 25 / 100"
  by (simp add: categoryBonus_def Let_def min_def)

lemma score_ok_bound:
  assumes "score_ok product crit candidate" "- (5 / 100) \<le> minScoreImprovement crit"
  shows "total_or_zero product - 5 / 100
           \<le> total_or_zero candidate + categoryBonus product candidate"
proof -
  consider (shared) "hasSharedCategories product candidate"
    | (similar) "\<not> hasSharedCategories product candidate" "hasSimilarCategories product candidate"
    | (none) "\<not> hasSharedCategories product candidate" "\<not> hasSimilarCategories product candidate"
    by blast
  then show ?thesis
  proof cases
    case shared
    with assms(1) show ?thesis by (simp add: score_ok_def Let_def)
  next
    case similar
    with assms(1) show ?thesis by (simp add: score_ok_def Let_def)
  next
    case none
    with assms show ?thesis by (simp add: score_ok_def Let_def split: if_splits)
  qed
qed

lemma passes_score_ok: "passes_filter product crit candidate \<Longrightarrow> score_ok product crit candidate"
  by (simp add: passes_filter_def split: if_splits)

lemma result_from_pool:
  assumes ok: "sort_ok srt"
    and x: "x \<in> set (findSmartSubstitutes srt product pool crit)"
  shows "base x \<in> set pool \<and> passes_filter product crit (base x)"
proof -
  define cws where "cws = map (annotate product) (filter (passes_filter product crit) pool)"
  from rank_structure[OF ok, of product crit cws] obtain bs fill where
    r: "rank_candidates srt product crit cws = bs @ map (recommend Balanced) fill"
    and b: "\<forall>x\<in>set bs. \<exists>c\<in>set cws. base x = base c"
    and f: "set fill \<subseteq> set cws" by blast
  from x have "x \<in> set bs \<or> x \<in> set (map (recommend Balanced) fill)"
    unfolding findSmartSubstitutes_def Let_def cws_def[symmetric] r by simp
  then obtain c where c: "c \<in> set cws" "base x = base c"
    using b f by auto
  from candidates_from_pool[OF c(1)[unfolded cws_def]] c(2) show ?thesis by simp
qed

subsection \<open>Scores of the substitutes\<close>

text \<open>
  Claim C2, as stated, fails: the filter compares the candidate's total plus the category
  bonus, not the total. A candidate of total 0.7 that shares the category of a product of
  total 0.8 gets the bonus 0.15 and is returned, 0.10 below the product.
\<close>

theorem substitute_score_counterexample:
  "map (\<lambda>x. (prod_id (base x), total_or_zero (base x)))
       (findSmartSubstitutes sort_by milkProduct [milkCandidate] default_criteria)
     = [(Some 2, 7 / 10)]
   \<and> total_or_zero milkProduct = 8 / 10
   \<and> hasSharedCategories milkProduct milkCandidate
   \<and> (7 / 10 :: real) < 8 / 10 - 5 / 100"
proof -
  have "map (\<lambda>x. (prod_id (base x), total_or_zero (base x)))
       (findSmartSubstitutes sort_by milkProduct [milkCandidate] default_criteria)
     = [(Some 2, 7 / 10)]"
    by code_simp
  moreover have "total_or_zero milkProduct = 8 / 10" by code_simp
  moreover have "hasSharedCategories milkProduct milkCandidate" by code_simp
  ultimately show ?thesis by simp
qed

text \<open>
  Claim C2, amended. With \<open>minScoreImprovement\<close> at least -0.05 (any non-negative value is),
  every substitute returned is a candidate of the pool whose total plus category bonus is
  at or above the product's total minus 0.05; the bonus lies between 0 and 0.25, so the
  total is at or above the product's total minus 0.30, and at or above the total minus 0.05
  when the bonus is 0.
\<close>

theorem substitute_score_floor:
  assumes "sort_ok srt" and "- (5 / 100) \<le> minScoreImprovement crit"
  shows "\<forall>x\<in>set (findSmartSubstitutes srt product pool crit).
           base x \<in> set pool
           \<and> 0 \<le> categoryBonus product (base x) \<and> categoryBonus product (base x) \<le> 25 / 100
           \<and> total_or_zero product - 5 / 100
                \<le> total_or_zero (base x) + categoryBonus product (base x)
           \<and> total_or_zero product - 30 / 100 \<le> total_or_zero (base x)"
proof
  fix x assume "x \<in> set (findSmartSubstitutes srt product pool crit)"
  from result_from_pool[OF assms(1) this]
  have p: "base x \<in> set pool" "passes_filter product crit (base x)" by simp_all
  from score_ok_bound[OF passes_score_ok[OF p(2)] assms(2)]
  have s: "total_or_zero product - 5 / 100
             \<le> total_or_zero (base x) + categoryBonus product (base x)" .
  with categoryBonus_bounds[of product "base x"] p(1)
  show "base x \<in> set pool
           \<and> 0 \<le> categoryBonus product (base x) \<and> categoryBonus product (base x) \<le> 25 / 100
           \<and> total_or_zero product - 5 / 100
                \<le> total_or_zero (base x) + categoryBonus product (base x)
           \<and> total_or_zero product - 30 / 100 \<le> total_or_zero (base x)"
    by simp
qed

theorem substitute_score_floor_witness:
  "sort_ok sort_by \<and> - (5 / 100) \<le> minScoreImprovement default_criteria
   \<and> map (\<lambda>x. (prod_id (base x), total_or_zero (base x)))
       (findSmartSubstitutes sort_by milkProduct [milkCandidate] default_criteria)
     = [(Some 2, 7 / 10)]
   \<and> categoryBonus milkProduct milkCandidate = 15 / 100
   \<and> list_all (\<lambda>x. total_or_zero milkProduct - 5 / 100
                \<le> total_or_zero (base x) + categoryBonus milkProduct (base x))
        (findSmartSubstitutes sort_by milkProduct [milkCandidate] default_criteria)"
proof -
  have m: "- (5 / 100) \<le> minScoreImprovement default_criteria"
    by (simp add: default_criteria_def)
  have e: "map (\<lambda>x. (prod_id (base x), total_or_zero (base x)))
       (findSmartSubstitutes sort_by milkProduct [milkCandidate] default_criteria)
     = [(Some 2, 7 / 10)]"
    by code_simp
  have b: "categoryBonus milkProduct milkCandidate = 15 / 100" by code_simp
  have "list_all (\<lambda>x. total_or_zero milkProduct - 5 / 100
                \<le> total_or_zero (base x) + categoryBonus milkProduct (base x))
        (findSmartSubstitutes sort_by milkProduct [milkCandidate] default_criteria)"
    unfolding list_all_iff
    using substitute_score_floor[OF sort_by_ok m, of milkProduct "[milkCandidate]"]
    by blast
  then show ?thesis using sort_by_ok m e b by simp
qed

subsection \<open>Recommendation types and identifiers\<close>

text \<open>
  Claim C3, as stated, fails: the backfill labels every candidate it adds as balanced, so
  three equal candidates give one economic entry and two balanced ones; and a pool that
  lists a product twice can give two entries of one identifier, because the backfill
  filters by the identifiers added before it starts.
\<close>

theorem recommendation_counterexample:
  "map (\<lambda>x. (prod_id (base x), recommendationType x))
       (findSmartSubstitutes sort_by exampleProduct exampleCandidates default_criteria)
     = [(Some 4, Some Economic), (Some 2, Some Balanced), (Some 3, Some Balanced)]
   \<and> map (\<lambda>x. (prod_id (base x), recommendationType x))
       (findSmartSubstitutes sort_by exampleProduct repeatedCandidates default_criteria)
     = [(Some 4, Some Economic), (Some 2, Some Balanced), (Some 2, Some Balanced)]"
proof -
  have "map (\<lambda>x. (prod_id (base x), recommendationType x))
       (findSmartSubstitutes sort_by exampleProduct exampleCandidates default_criteria)
     = [(Some 4, Some Economic), (Some 2, Some Balanced), (Some 3, Some Balanced)]"
    by code_simp
  moreover have "map (\<lambda>x. (prod_id (base x), recommendationType x))
       (findSmartSubstitutes sort_by exampleProduct repeatedCandidates default_criteria)
     = [(Some 4, Some Economic), (Some 2, Some Balanced), (Some 2, Some Balanced)]"
    by code_simp
  ultimately show ?thesis by simp
qed

text \<open>
  Claim C3, amended. A result has at most one entry of each of the types economic,
  environmental and social (balanced entries may be several); and when the identifiers of
  the pool are pairwise distinct, no two entries of the result share an identifier.
\<close>

theorem one_entry_per_dimension:
  assumes "sort_ok srt"
  shows "count_type Economic (findSmartSubstitutes srt product pool crit) \<le> 1
     \<and> count_type Environmental (findSmartSubstitutes srt product pool crit) \<le> 1
     \<and> count_type Social (findSmartSubstitutes srt product pool crit) \<le> 1
     \<and> (distinct (map prod_id pool) \<longrightarrow>
          distinct (map sub_id (findSmartSubstitutes srt product pool crit)))"
proof -
  define cws where "cws = map (annotate product) (filter (passes_filter product crit) pool)"
  from rank_structure[OF assms, of product crit cws] obtain bs fill where
    r: "rank_candidates srt product crit cws = bs @ map (recommend Balanced) fill"
    and c: "count_type Economic bs \<le> 1" "count_type Environmental bs \<le> 1"
           "count_type Social bs \<le> 1"
    and d: "distinct (map sub_id cws) \<longrightarrow> distinct (map sub_id (bs @ fill))" by blast
  have f: "findSmartSubstitutes srt product pool crit = bs @ map (recommend Balanced) fill"
    unfolding findSmartSubstitutes_def Let_def cws_def[symmetric] r ..
  have ids: "map sub_id cws = map prod_id (filter (passes_filter product crit) pool)"
    unfolding cws_def by (simp add: sub_id_def comp_def)
  have "distinct (map sub_id (bs @ map (recommend Balanced) fill))" if "distinct (map prod_id pool)"
  proof -
    from that have "distinct (map sub_id cws)" unfolding ids by (rule distinct_map_filter)
    with d have "distinct (map sub_id (bs @ fill))" by blast
    then show ?thesis by (simp add: comp_def)
  qed
  then show ?thesis
    unfolding f using c by (simp add: count_type_append count_type_balanced)
qed

theorem one_entry_per_dimension_witness:
  "sort_ok sort_by \<and> distinct (map prod_id exampleCandidates)
   \<and> map (\<lambda>x. (sub_id x, recommendationType x))
       (findSmartSubstitutes sort_by exampleProduct exampleCandidates default_criteria)
     = [(Some 4, Some Economic), (Some 2, Some Balanced), (Some 3, Some Balanced)]
   \<and> count_type Economic
        (findSmartSubstitutes sort_by exampleProduct exampleCandidates default_criteria) \<le> 1
   \<and> distinct (map sub_id
        (findSmartSubstitutes sort_by exampleProduct exampleCandidates default_criteria))"
proof -
  have d: "distinct (map prod_id exampleCandidates)" by code_simp
  have e: "map (\<lambda>x. (sub_id x, recommendationType x))
       (findSmartSubstitutes sort_by exampleProduct exampleCandidates default_criteria)
     = [(Some 4, Some Economic), (Some 2, Some Balanced), (Some 3, Some Balanced)]"
    by code_simp
  show ?thesis
    using one_entry_per_dimension[OF sort_by_ok, of exampleProduct exampleCandidates default_criteria]
      sort_by_ok d e by simp
qed

subsection \<open>Length of the result\<close>

text \<open>
  Claim C4, as stated, fails: the three best-of-dimension entries are pushed whatever
  \<open>maxResults\<close> is, which only bounds the backfill. With \<open>maxResults = 1\<close> and two candidates,
  one best economically and one environmentally, the result has two entries.
\<close>

theorem result_length_counterexample:
  "maxResults (default_criteria\<lparr>maxResults := 1\<rparr>) = 1
   \<and> map (\<lambda>x. (prod_id (base x), recommendationType x))
       (findSmartSubstitutes sort_by exampleProduct splitCandidates
          (default_criteria\<lparr>maxResults := 1\<rparr>))
     = [(Some 2, Some Economic), (Some 3, Some Environmental)]
   \<and> length (findSmartSubstitutes sort_by exampleProduct splitCandidates
          (default_criteria\<lparr>maxResults := 1\<rparr>)) = 2"
proof -
  have "map (\<lambda>x. (prod_id (base x), recommendationType x))
       (findSmartSubstitutes sort_by exampleProduct splitCandidates
          (default_criteria\<lparr>maxResults := 1\<rparr>))
     = [(Some 2, Some Economic), (Some 3, Some Environmental)]"
    by code_simp
  moreover have "length (findSmartSubstitutes sort_by exampleProduct splitCandidates
          (default_criteria\<lparr>maxResults := 1\<rparr>)) = 2"
    by code_simp
  ultimately show ?thesis by simp
qed

text \<open>
  Claim C4, amended. The result has at most \<open>max 3 maxResults\<close> entries; so at most
  \<open>maxResults\<close> entries whenever \<open>maxResults\<close> is 3 or more, as the default 5 is.
\<close>

theorem result_length_bound:
  assumes "sort_ok srt"
  shows "int (length (findSmartSubstitutes srt product pool crit)) \<le> max 3 (maxResults crit)
     \<and> (3 \<le> maxResults crit \<longrightarrow>
          int (length (findSmartSubstitutes srt product pool crit)) \<le> maxResults crit)"
proof -
  define cws where "cws = map (annotate product) (filter (passes_filter product crit) pool)"
  from rank_structure[OF assms, of product crit cws] obtain bs fill where
    r: "rank_candidates srt product crit cws = bs @ map (recommend Balanced) fill"
    and l: "length bs \<le> 3" "fill = [] \<or> int (length bs + length fill) \<le> maxResults crit"
    by blast
  have f: "findSmartSubstitutes srt product pool crit = bs @ map (recommend Balanced) fill"
    unfolding findSmartSubstitutes_def Let_def cws_def[symmetric] r ..
  show ?thesis unfolding f using l by auto
qed

theorem result_length_bound_witness:
  "sort_ok sort_by \<and> (3::int) \<le> maxResults default_criteria
   \<and> length (findSmartSubstitutes sort_by exampleProduct exampleCandidates default_criteria) = 3
   \<and> int (length (findSmartSubstitutes sort_by exampleProduct exampleCandidates default_criteria))
       \<le> maxResults default_criteria
   \<and> int (length (findSmartSubstitutes sort_by exampleProduct splitCandidates
          (default_criteria\<lparr>maxResults := 1\<rparr>))) \<le> 3"
proof -
  have m: "(3::int) \<le> maxResults default_criteria" by (simp add: default_criteria_def)
  have l: "length (findSmartSubstitutes sort_by exampleProduct exampleCandidates default_criteria) = 3"
    by code_simp
  have a: "int (length (findSmartSubstitutes sort_by exampleProduct exampleCandidates default_criteria))
       \<le> maxResults default_criteria"
    using result_length_bound[OF sort_by_ok, of exampleProduct exampleCandidates default_criteria] m
    by simp
  have b: "int (length (findSmartSubstitutes sort_by exampleProduct splitCandidates
          (default_criteria\<lparr>maxResults := 1\<rparr>))) \<le> 3"
    using result_length_bound[OF sort_by_ok, of exampleProduct splitCandidates
        "default_criteria\<lparr>maxResults := 1\<rparr>"]
    by simp
  show ?thesis using sort_by_ok m l a b by simp
qed

section \<open>The optimizer leaves its input alone\<close>

lemma untouched_refl: "untouched h h"
  by (simp add: untouched_def)

lemma untouched_trans: "untouched h1 h2 \<Longrightarrow> untouched h2 h3 \<Longrightarrow> untouched h1 h3"
proof -
  assume a: "untouched h1 h2" "untouched h2 h3"
  then have l: "length h1 \<le> length h2" "length h2 \<le> length h3" by (simp_all add: untouched_def)
  have "take (length h1) h3 = take (length h1) (take (length h2) h3)"
    using l by (simp add: min_def)
  also have "\<dots> = take (length h1) h2" using a(2) by (simp add: untouched_def)
  also have "\<dots> = h1" using a(1) by (simp add: untouched_def)
  finally show ?thesis using l by (simp add: untouched_def)
qed

lemma untouched_append: "untouched h (h @ ys)"
  by (simp add: untouched_def)

lemma untouched_update:
  "untouched h0 h \<Longrightarrow> length h0 \<le> a \<Longrightarrow> untouched h0 (h[a := c])"
  by (simp add: untouched_def)

lemma untouched_nth: "untouched h h' \<Longrightarrow> a < length h \<Longrightarrow> h' ! a = h ! a"
proof -
  assume a: "untouched h h'" "a < length h"
  then have "take (length h) h' ! a = h' ! a" by simp
  with a show ?thesis by (simp add: untouched_def)
qed

lemma untouched_alloc: "untouched h0 h \<Longrightarrow> untouched h0 (snd (alloc h c))"
  using untouched_trans[OF _ untouched_append] by (simp add: alloc_def)

lemma alloc_fresh: "untouched h0 h \<Longrightarrow> length h0 \<le> fst (alloc h c)"
  by (simp add: alloc_def untouched_def)

lemma untouched_push: "untouched h0 h \<Longrightarrow> length h0 \<le> a \<Longrightarrow> untouched h0 (arr_push h a x)"
  by (simp add: arr_push_def untouched_update)

lemma untouched_sort: "untouched h0 h \<Longrightarrow> length h0 \<le> a \<Longrightarrow> untouched h0 (arr_sort h a cmp)"
  by (simp add: arr_sort_def untouched_update)

lemma untouched_reverse: "untouched h0 h \<Longrightarrow> length h0 \<le> a \<Longrightarrow> untouched h0 (arr_reverse h a)"
  by (simp add: arr_reverse_def untouched_update)

lemma copy_all_Cons:
  "copy_all h (x # xs) f =
     (length h # fst (copy_all (h @ [Obj (f (obj_of h x))]) xs f),
      snd (copy_all (h @ [Obj (f (obj_of h x))]) xs f))"
  by (simp add: alloc_def Let_def case_prod_beta)

lemma untouched_copy_all: "untouched h0 h \<Longrightarrow> untouched h0 (snd (copy_all h xs f))"
proof (induction xs arbitrary: h)
  case Nil
  then show ?case by simp
next
  case (Cons x xs)
  have "untouched h0 (h @ [Obj (f (obj_of h x))])"
    using untouched_trans[OF Cons.prems untouched_append] .
  from Cons.IH[OF this] show ?case unfolding copy_all_Cons by simp
qed

lemma untouched_map_copy: "untouched h0 h \<Longrightarrow> untouched h0 (snd (arr_map_copy h a f))"
proof -
  assume "untouched h0 h"
  then have "untouched h0 (snd (copy_all h (arr_of h a) f))" by (rule untouched_copy_all)
  then have "untouched h0 (snd (alloc (snd (copy_all h (arr_of h a) f))
      (Arr (fst (copy_all h (arr_of h a) f)))))" by (rule untouched_alloc)
  then show ?thesis by (simp add: arr_map_copy_def case_prod_beta)
qed

lemma untouched_filter: "untouched h0 h \<Longrightarrow> untouched h0 (snd (arr_filter h a pred))"
  by (simp add: arr_filter_def untouched_alloc)

lemma untouched_greedy_loop:
  "untouched h0 h \<Longrightarrow> length h0 \<le> sel \<Longrightarrow>
     untouched h0 (st_greedy_loop h xs rem ms sel)"
  by (induction xs arbitrary: h rem) (simp_all add: Let_def untouched_push)

lemma untouched_reconstruct:
  "untouched h0 h \<Longrightarrow> length h0 \<le> result \<Longrightarrow>
     untouched h0 (st_reconstruct h prs w result)"
  by (induction prs arbitrary: h w) (auto simp: untouched_push)

lemma untouched_greedy:
  assumes "untouched h0 h"
  shows "untouched h0 (snd (st_greedyOptimization h products maxBudget minScore))
         \<and> length h0 \<le> fst (fst (st_greedyOptimization h products maxBudget minScore))"
proof -
  define sorted where "sorted = fst (alloc h (Arr (arr_of h products)))"
  define h1 where "h1 = snd (alloc h (Arr (arr_of h products)))"
  define h2 where "h2 = arr_sort h1 sorted (\<lambda>a b. the (ratio b) - the (ratio a))"
  define sel where "sel = fst (alloc h2 (Arr []))"
  define h3 where "h3 = snd (alloc h2 (Arr []))"
  define h4 where "h4 = st_greedy_loop h3 (arr_of h3 sorted) maxBudget minScore sel"
  have r: "st_greedyOptimization h products maxBudget minScore
             = ((sel, msg_greedy (length (arr_of h4 sel))), h4)"
    unfolding st_greedyOptimization_def Let_def h4_def h3_def sel_def h2_def h1_def sorted_def
    by (simp add: case_prod_beta)
  have u1: "untouched h0 h1" unfolding h1_def by (rule untouched_alloc[OF assms])
  have f1: "length h0 \<le> sorted" unfolding sorted_def by (rule alloc_fresh[OF assms])
  have u2: "untouched h0 h2" unfolding h2_def by (rule untouched_sort[OF u1 f1])
  have u3: "untouched h0 h3" unfolding h3_def by (rule untouched_alloc[OF u2])
  have f3: "length h0 \<le> sel" unfolding sel_def by (rule alloc_fresh[OF u2])
  have u4: "untouched h0 h4" unfolding h4_def by (rule untouched_greedy_loop[OF u3 f3])
  show ?thesis unfolding r using u4 f3 by simp
qed

lemma untouched_dp:
  assumes "untouched h0 h"
  shows "untouched h0 (snd (st_dynamicProgrammingOptimization h products maxBudget minScore))
         \<and> (\<forall>sel msg. fst (st_dynamicProgrammingOptimization h products maxBudget minScore)
                = Inr (sel, msg) \<longrightarrow> length h0 \<le> sel)"
proof -
  define vp where "vp = fst (arr_filter h products (\<lambda>p. score_total p \<ge> minScore))"
  define h1 where "h1 = snd (arr_filter h products (\<lambda>p. score_total p \<ge> minScore))"
  define B where "B = \<lfloor>maxBudget * 100\<rfloor>"
  define rows where "rows = dp_fill (deref h1 vp) (replicate (nat (B + 1)) 0)"
  define result where "result = fst (alloc h1 (Arr []))"
  define h2 where "h2 = snd (alloc h1 (Arr []))"
  define h3 where "h3 = st_reconstruct h2 (rev (zip (arr_of h2 vp) rows)) B result"
  define h4 where "h4 = arr_reverse h3 result"
  have r: "st_dynamicProgrammingOptimization h products maxBudget minScore
             = (if arr_of h1 vp = [] then (Inr (result, msg_none_min), h2)
                else if \<not> valid_array_length (B + 1) then (Inl RangeError, h1)
                else (Inr (result, msg_dp (length (arr_of h4 result))), h4))"
    unfolding st_dynamicProgrammingOptimization_def Let_def h4_def h3_def h2_def result_def
      rows_def B_def h1_def vp_def
    by (simp add: case_prod_beta)
  have u1: "untouched h0 h1" unfolding h1_def by (rule untouched_filter[OF assms])
  have u2: "untouched h0 h2" unfolding h2_def by (rule untouched_alloc[OF u1])
  have f2: "length h0 \<le> result" unfolding result_def by (rule alloc_fresh[OF u1])
  have u3: "untouched h0 h3" unfolding h3_def by (rule untouched_reconstruct[OF u2 f2])
  have u4: "untouched h0 h4" unfolding h4_def by (rule untouched_reverse[OF u3 f2])
  show ?thesis unfolding r using u1 u2 u4 f2 by simp
qed

lemma st_optimize_untouched:
  "untouched h (snd (st_optimizeShoppingList h products maxBudget options))
   \<and> (\<forall>r. fst (st_optimizeShoppingList h products maxBudget options) = Inr r
          \<longrightarrow> length h \<le> selected_at r)"
proof -
  define vp where "vp = fst (arr_filter h products valid_product)"
  define h1 where "h1 = snd (arr_filter h products valid_product)"
  define f where "f = (\<lambda>product. product\<lparr>ratio := Some (score_total product / the (price product))\<rparr>)"
  define pwr where "pwr = fst (arr_map_copy h1 vp f)"
  define h2 where "h2 = snd (arr_map_copy h1 vp f)"
  define G where "G = st_greedyOptimization h2 pwr maxBudget (opt_minScore options)"
  define st where "st = (if opt_prioritizeSustainability options then (Inr (fst G), snd G)
            else st_dynamicProgrammingOptimization h2 pwr maxBudget (opt_minScore options))"
  have u1: "untouched h h1" unfolding h1_def by (rule untouched_filter[OF untouched_refl])
  have u2: "untouched h h2" unfolding h2_def by (rule untouched_map_copy[OF u1])
  have u3: "untouched h (snd st)"
    unfolding st_def G_def
    using untouched_greedy[OF u2, of pwr maxBudget "opt_minScore options"]
      untouched_dp[OF u2, of pwr maxBudget "opt_minScore options"] by simp
  have f3: "length h \<le> sel" if "fst st = Inr (sel, msg)" for sel msg
  proof (cases "opt_prioritizeSustainability options")
    case True
    with that have "sel = fst (fst G)" unfolding st_def by (metis fst_conv sum.inject(2))
    then show ?thesis
      unfolding G_def using untouched_greedy[OF u2, of pwr maxBudget "opt_minScore options"]
      by simp
  next
    case False
    with that show ?thesis
      unfolding st_def using untouched_dp[OF u2, of pwr maxBudget "opt_minScore options"]
      by simp
  qed
  show ?thesis
  proof (cases "arr_of h1 vp = []")
    case True
    then have "st_optimizeShoppingList h products maxBudget options
        = (Inr \<lparr>selected_at = length h1, read_back = empty_result\<rparr>, h1 @ [Arr []])"
      unfolding st_optimizeShoppingList_def Let_def
      by (simp add: case_prod_beta vp_def h1_def alloc_def)
    then show ?thesis
      using untouched_trans[OF u1 untouched_append] u1 by (simp add: untouched_def)
  next
    case False
    have e: "st_optimizeShoppingList h products maxBudget options
        = (case fst st of
             Inl e \<Rightarrow> (Inl e, snd st)
           | Inr sm \<Rightarrow>
               (Inr \<lparr>selected_at = fst sm,
                     read_back = summarize (deref (snd st) (fst sm)) (deref (snd st) products)
                                   maxBudget (snd sm)\<rparr>,
                snd st))"
      unfolding st_optimizeShoppingList_def Let_def case_prod_beta
      unfolding vp_def[symmetric] h1_def[symmetric] f_def[symmetric]
      unfolding pwr_def[symmetric] h2_def[symmetric] G_def[symmetric] st_def[symmetric]
      using False by (simp add: case_prod_beta split: sum.splits)
    show ?thesis
    proof (cases "fst st")
      case (Inl a)
      then show ?thesis unfolding e using u3 by simp
    next
      case (Inr sm)
      obtain sel msg where sm: "sm = (sel, msg)" by (cases sm)
      from f3[of sel msg] Inr sm have "length h \<le> sel" by simp
      then show ?thesis unfolding e using u3 Inr sm by simp
    qed
  qed
qed

subsection \<open>Reading the store\<close>

lemma obj_of_append: "a < length h \<Longrightarrow> obj_of (h @ ys) a = obj_of h a"
  by (simp add: obj_of_def nth_append)

lemma arr_of_append: "a < length h \<Longrightarrow> arr_of (h @ ys) a = arr_of h a"
  by (simp add: arr_of_def nth_append)

lemma arr_of_new: "arr_of (h @ [Arr xs]) (length h) = xs"
  by (simp add: arr_of_def)

lemma obj_of_new: "obj_of (h @ [Obj p]) (length h) = p"
  by (simp add: obj_of_def)

lemma arr_of_update: "a < length h \<Longrightarrow> arr_of (h[a := Arr xs]) a = xs"
  by (simp add: arr_of_def)

lemma arr_of_update_other: "a \<noteq> b \<Longrightarrow> arr_of (h[a := c]) b = arr_of h b"
  by (simp add: arr_of_def)

lemma obj_of_update_arr:
  assumes "a < length h" "h ! a = Arr xs"
  shows "obj_of (h[a := Arr ys]) = obj_of h"
proof
  fix x
  show "obj_of (h[a := Arr ys]) x = obj_of h x"
    using assms by (cases "x = a") (simp_all add: obj_of_def)
qed

lemma untouched_obj_of: "untouched h h' \<Longrightarrow> a < length h \<Longrightarrow> obj_of h' a = obj_of h a"
  using untouched_nth[of h h' a] by (simp add: obj_of_def untouched_def)

lemma untouched_arr_of: "untouched h h' \<Longrightarrow> a < length h \<Longrightarrow> arr_of h' a = arr_of h a"
  using untouched_nth[of h h' a] by (simp add: arr_of_def untouched_def)

lemma copy_all_eq:
  "\<forall>x\<in>set xs. x < length h \<Longrightarrow>
     copy_all h xs f = ([length h..<length h + length xs], h @ map (\<lambda>x. Obj (f (obj_of h x))) xs)"
proof (induction xs arbitrary: h)
  case Nil
  then show ?case by simp
next
  case (Cons x xs)
  have 1: "\<forall>y\<in>set xs. y < length (h @ [Obj (f (obj_of h x))])" using Cons.prems by auto
  have 2: "map (\<lambda>y. Obj (f (obj_of (h @ [Obj (f (obj_of h x))]) y))) xs
         = map (\<lambda>y. Obj (f (obj_of h y))) xs"
    using Cons.prems by (simp add: obj_of_append)
  have 3: "[length h..<length h + length (x # xs)]
         = length h # [length (h @ [Obj (f (obj_of h x))])
                        ..<length (h @ [Obj (f (obj_of h x))]) + length xs]"
    by (subst upt_rec) simp
  show ?case unfolding copy_all_Cons Cons.IH[OF 1] 2 3 by simp
qed

subsection \<open>The store version computes what the function computes\<close>

lemma map_ins_by:
  "map g (ins_by (\<lambda>x y. cmp (g x) (g y)) x ys) = ins_by cmp (g x) (map g ys)"
  by (induction ys) simp_all

lemma map_foldl_ins_by:
  "map g (foldl (\<lambda>acc x. ins_by (\<lambda>x y. cmp (g x) (g y)) x acc) acc xs)
     = foldl (\<lambda>acc x. ins_by cmp x acc) (map g acc) (map g xs)"
  by (induction xs arbitrary: acc) (simp_all add: map_ins_by)

lemma map_sort_by: "map g (sort_by (\<lambda>x y. cmp (g x) (g y)) xs) = sort_by cmp (map g xs)"
  by (simp add: sort_by_def rev_map[symmetric] map_foldl_ins_by)

lemma map_greedy_addrs:
  "map g (greedy_addrs g xs rem ms acc) = greedy_loop (map g xs) rem ms (map g acc)"
  by (induction xs arbitrary: rem acc) (simp_all add: Let_def)

lemma set_greedy_addrs: "set (greedy_addrs g xs rem ms acc) \<subseteq> set acc \<union> set xs"
proof (induction xs arbitrary: rem acc)
  case Nil
  then show ?case by simp
next
  case (Cons x xs)
  show ?case using Cons.IH[of "rem - item_cost (g x)" "acc @ [x]"] Cons.IH[of rem acc] by auto
qed

lemma map_reconstruct_addrs:
  "map g (reconstruct_addrs g prs w acc)
     = reconstruct (map (\<lambda>(x, r). (g x, r)) prs) w (map g acc)"
  by (induction prs arbitrary: w acc) auto

lemma set_reconstruct_addrs: "set (reconstruct_addrs g prs w acc) \<subseteq> set acc \<union> fst ` set prs"
proof (induction prs arbitrary: w acc)
  case Nil
  then show ?case by simp
next
  case (Cons pr prs)
  obtain x r where pr: "pr = (x, r)" by (cases pr)
  show ?case
    using Cons.IH[of "w - cost_cents (g x)" "acc @ [x]"] Cons.IH[of w acc] pr by auto
qed

lemma st_greedy_loop_eq:
  "sel < length h \<Longrightarrow> h ! sel = Arr acc \<Longrightarrow>
     st_greedy_loop h xs rem ms sel = h[sel := Arr (greedy_addrs (obj_of h) xs rem ms acc)]"
proof (induction xs arbitrary: h rem acc)
  case Nil
  then show ?case by (metis list_update_id st_greedy_loop.simps(1) greedy_addrs.simps(1))
next
  case (Cons x xs)
  let ?h' = "h[sel := Arr (acc @ [x])]"
  have p: "arr_push h sel x = ?h'" using Cons.prems by (simp add: arr_push_def arr_of_def)
  have o: "obj_of ?h' = obj_of h" using obj_of_update_arr[OF Cons.prems] .
  have l: "sel < length ?h'" "?h' ! sel = Arr (acc @ [x])" using Cons.prems by simp_all
  show ?case
  proof (cases "item_cost (obj_of h x) \<le> rem \<and> score_total (obj_of h x) \<ge> ms")
    case True
    then show ?thesis
      using Cons.IH[OF l, of "rem - item_cost (obj_of h x)"]
      by (simp add: Let_def p o)
  next
    case False
    then show ?thesis using Cons.IH[OF Cons.prems, of rem] by (auto simp: Let_def)
  qed
qed

lemma st_reconstruct_eq:
  "res < length h \<Longrightarrow> h ! res = Arr acc \<Longrightarrow>
     st_reconstruct h prs w res = h[res := Arr (reconstruct_addrs (obj_of h) prs w acc)]"
proof (induction prs arbitrary: h w acc)
  case Nil
  then show ?case by (metis list_update_id st_reconstruct.simps(1) reconstruct_addrs.simps(1))
next
  case (Cons pr prs)
  obtain x r where pr: "pr = (x, r)" by (cases pr)
  let ?h' = "h[res := Arr (acc @ [x])]"
  have p: "arr_push h res x = ?h'" using Cons.prems by (simp add: arr_push_def arr_of_def)
  have o: "obj_of ?h' = obj_of h" using obj_of_update_arr[OF Cons.prems] .
  have l: "res < length ?h'" "?h' ! res = Arr (acc @ [x])" using Cons.prems by simp_all
  show ?case
  proof (cases "row_get r w = Some True")
    case True
    then show ?thesis
      using Cons.IH[OF l, of "w - cost_cents (obj_of h x)"] by (simp add: pr p o)
  next
    case False
    then show ?thesis using Cons.IH[OF Cons.prems, of w] by (simp add: pr)
  qed
qed

lemma map_obj_of_untouched:
  "untouched h h' \<Longrightarrow> \<forall>x\<in>set xs. x < length h \<Longrightarrow> map (obj_of h') xs = map (obj_of h) xs"
  by (simp add: untouched_obj_of)

lemma st_greedy_refines:
  assumes a: "a < length h" and xs: "\<forall>x\<in>set (arr_of h a). x < length h"
  shows "deref (snd (st_greedyOptimization h a b ms)) (fst (fst (st_greedyOptimization h a b ms)))
           = fst (greedyOptimization (deref h a) b ms)"
    and "snd (fst (st_greedyOptimization h a b ms)) = snd (greedyOptimization (deref h a) b ms)"
    and "set (arr_of (snd (st_greedyOptimization h a b ms)) (fst (fst (st_greedyOptimization h a b ms))))
           \<subseteq> set (arr_of h a)"
proof -
  define cmp :: "product \<Rightarrow> product \<Rightarrow> real" where "cmp = (\<lambda>a b. the (ratio b) - the (ratio a))"
  define h1 where "h1 = h @ [Arr (arr_of h a)]"
  define sx where "sx = sort_by (\<lambda>x y. cmp (obj_of h1 x) (obj_of h1 y)) (arr_of h a)"
  define h2 where "h2 = h1[length h := Arr sx]"
  define h3 where "h3 = h2 @ [Arr []]"
  define ga where "ga = greedy_addrs (obj_of h3) sx b ms []"
  define h4 where "h4 = h3[Suc (length h) := Arr ga]"
  have l2: "length h2 = Suc (length h)" by (simp add: h2_def h1_def)
  have s1: "arr_of h1 (length h) = arr_of h a" unfolding h1_def by (rule arr_of_new)
  have s2: "arr_sort h1 (length h) cmp = h2"
    unfolding arr_sort_def s1 h2_def sx_def ..
  have s3: "arr_of h3 (length h) = sx"
    unfolding h3_def h2_def h1_def by (simp add: arr_of_def nth_append)
  have "st_greedy_loop h3 sx b ms (Suc (length h)) = h3[Suc (length h) := Arr ga]"
    unfolding ga_def by (rule st_greedy_loop_eq) (simp_all add: h3_def l2 nth_append)
  then have s4: "st_greedy_loop h3 sx b ms (Suc (length h)) = h4" unfolding h4_def .
  have r: "st_greedyOptimization h a b ms
             = ((Suc (length h), msg_greedy (length (arr_of h4 (Suc (length h))))), h4)"
    unfolding st_greedyOptimization_def Let_def alloc_def case_prod_beta fst_conv snd_conv
      cmp_def[symmetric] h1_def[symmetric] s2 l2 h3_def[symmetric] s3 s4 ..
  have g4: "arr_of h4 (Suc (length h)) = ga"
    unfolding h4_def by (rule arr_of_update) (simp add: h3_def l2)
  have o4: "obj_of h4 = obj_of h3"
    unfolding h4_def by (rule obj_of_update_arr[of _ _ "[]"]) (simp_all add: h3_def l2 nth_append)
  have u1: "untouched h h1" unfolding h1_def by (rule untouched_append)
  have u2: "untouched h h2" unfolding h2_def by (rule untouched_update[OF u1]) simp
  have u3: "untouched h h3" unfolding h3_def by (rule untouched_trans[OF u2 untouched_append])
  have set_sx: "set sx = set (arr_of h a)" unfolding sx_def by (rule set_sort_by)
  have xs': "\<forall>x\<in>set sx. x < length h" using xs set_sx by simp
  have e1: "map (obj_of h1) (arr_of h a) = map (obj_of h) (arr_of h a)"
    by (rule map_obj_of_untouched[OF u1 xs])
  have "map (obj_of h3) sx = map (obj_of h) sx" by (rule map_obj_of_untouched[OF u3 xs'])
  also have "\<dots> = map (obj_of h1) sx" by (rule map_obj_of_untouched[OF u1 xs', symmetric])
  also have "\<dots> = sort_by cmp (map (obj_of h1) (arr_of h a))"
    unfolding sx_def by (rule map_sort_by)
  also have "\<dots> = sort_by cmp (deref h a)"
    unfolding e1 deref_def ..
  finally have m: "map (obj_of h3) sx = sort_by cmp (deref h a)" .
  have d: "deref h4 (Suc (length h)) = greedy_loop (sort_by cmp (deref h a)) b ms []"
    unfolding deref_def g4 o4 ga_def map_greedy_addrs m by simp
  show "deref (snd (st_greedyOptimization h a b ms)) (fst (fst (st_greedyOptimization h a b ms)))
           = fst (greedyOptimization (deref h a) b ms)"
    unfolding r using d by (simp add: greedyOptimization_def Let_def cmp_def)
  have "length ga = length (greedy_loop (sort_by cmp (deref h a)) b ms [])"
    using d unfolding deref_def g4 by (metis length_map)
  then show "snd (fst (st_greedyOptimization h a b ms)) = snd (greedyOptimization (deref h a) b ms)"
    unfolding r by (simp add: g4 greedyOptimization_def Let_def cmp_def)
  show "set (arr_of (snd (st_greedyOptimization h a b ms)) (fst (fst (st_greedyOptimization h a b ms))))
           \<subseteq> set (arr_of h a)"
    unfolding r using set_greedy_addrs[of "obj_of h3" sx b ms "[]"] set_sx
    by (simp add: g4 ga_def)
qed

lemma map_zip_fst: "map (\<lambda>(x, r). (g x, r)) (zip xs ys) = zip (map g xs) ys"
  by (induction xs arbitrary: ys) (auto split: list.splits simp: zip_Cons1)

lemma st_dp_refines:
  assumes a: "a < length h" and xs: "\<forall>x\<in>set (arr_of h a). x < length h"
  shows "map_sum id (\<lambda>sm. (deref (snd (st_dynamicProgrammingOptimization h a b ms)) (fst sm), snd sm))
           (fst (st_dynamicProgrammingOptimization h a b ms))
         = dynamicProgrammingOptimization (deref h a) b ms"
    and "\<forall>sm. fst (st_dynamicProgrammingOptimization h a b ms) = Inr sm \<longrightarrow>
           set (arr_of (snd (st_dynamicProgrammingOptimization h a b ms)) (fst sm))
             \<subseteq> set (arr_of h a)"
proof -
  define vps where "vps = filter (\<lambda>x. score_total (obj_of h x) \<ge> ms) (arr_of h a)"
  define vpp where "vpp = filter (\<lambda>p. score_total p \<ge> ms) (deref h a)"
  define h1 where "h1 = h @ [Arr vps]"
  define B where "B = \<lfloor>b * 100\<rfloor>"
  define rows where "rows = dp_fill vpp (replicate (nat (B + 1)) 0)"
  define h2 where "h2 = h1 @ [Arr []]"
  define ra where "ra = reconstruct_addrs (obj_of h2) (rev (zip vps rows)) B []"
  define h3 where "h3 = h2[Suc (length h) := Arr ra]"
  define h4 where "h4 = h3[Suc (length h) := Arr (rev ra)]"
  have vxs: "\<forall>x\<in>set vps. x < length h" using xs by (simp add: vps_def)
  have u1: "untouched h h1" unfolding h1_def by (rule untouched_append)
  have u2: "untouched h h2" unfolding h2_def by (rule untouched_trans[OF u1 untouched_append])
  have f1: "arr_filter h a (\<lambda>p. score_total p \<ge> ms) = (length h, h1)"
    by (simp add: arr_filter_def alloc_def h1_def vps_def)
  have v1: "arr_of h1 (length h) = vps" unfolding h1_def by (rule arr_of_new)
  have v2: "arr_of h2 (length h) = vps" unfolding h2_def h1_def by (simp add: arr_of_def nth_append)
  have m0: "map (obj_of h) vps = vpp"
    unfolding vps_def vpp_def deref_def by (simp add: filter_map comp_def)
  have m1: "map (obj_of h1) vps = vpp" using map_obj_of_untouched[OF u1 vxs] m0 by simp
  have m2: "map (obj_of h2) vps = vpp" using map_obj_of_untouched[OF u2 vxs] m0 by simp
  have d1: "deref h1 (length h) = vpp" unfolding deref_def v1 m1 ..
  have e: "(vps = []) = (vpp = [])" using m0 by (metis map_is_Nil_conv)
  have l1: "length h1 = Suc (length h)" by (simp add: h1_def)
  have "st_reconstruct h2 (rev (zip vps rows)) B (Suc (length h)) = h2[Suc (length h) := Arr ra]"
    unfolding ra_def by (rule st_reconstruct_eq) (simp_all add: h2_def l1 nth_append)
  then have s3: "st_reconstruct h2 (rev (zip vps rows)) B (Suc (length h)) = h3" unfolding h3_def .
  have a3: "arr_of h3 (Suc (length h)) = ra"
    unfolding h3_def by (rule arr_of_update) (simp add: h2_def l1)
  have s4: "arr_reverse h3 (Suc (length h)) = h4" unfolding arr_reverse_def a3 h4_def ..
  have a4: "arr_of h4 (Suc (length h)) = rev ra"
    unfolding h4_def by (rule arr_of_update) (simp add: h3_def h2_def l1)
  have o3: "obj_of h3 = obj_of h2"
    unfolding h3_def by (rule obj_of_update_arr[of _ _ "[]"]) (simp_all add: h2_def l1 nth_append)
  have o4: "obj_of h4 = obj_of h2"
    unfolding h4_def o3[symmetric]
    by (rule obj_of_update_arr[of _ _ ra]) (simp_all add: h3_def h2_def l1)
  have r: "st_dynamicProgrammingOptimization h a b ms
             = (if vps = [] then (Inr (Suc (length h), msg_none_min), h2)
                else if \<not> valid_array_length (B + 1) then (Inl RangeError, h1)
                else (Inr (Suc (length h), msg_dp (length (rev ra))), h4))"
    unfolding st_dynamicProgrammingOptimization_def Let_def f1 case_prod_beta fst_conv snd_conv
      alloc_def v1 d1 l1 B_def[symmetric] rows_def[symmetric] h2_def[symmetric] v2 s3 s4 a4 ..
  have p: "dynamicProgrammingOptimization (deref h a) b ms
             = (if vpp = [] then Inr ([], msg_none_min)
                else if \<not> valid_array_length (B + 1) then Inl RangeError
                else Inr (rev (reconstruct (rev (zip vpp rows)) B []),
                          msg_dp (length (reconstruct (rev (zip vpp rows)) B []))))"
    unfolding dynamicProgrammingOptimization_def Let_def vpp_def[symmetric] B_def[symmetric]
      rows_def[symmetric] ..
  have mr: "map (obj_of h2) ra = reconstruct (rev (zip vpp rows)) B []"
    unfolding ra_def map_reconstruct_addrs rev_map[symmetric] map_zip_fst m2 by simp
  have d0: "deref h2 (Suc (length h)) = []"
    by (simp add: deref_def arr_of_def h2_def l1 nth_append)
  have d4: "deref h4 (Suc (length h)) = rev (reconstruct (rev (zip vpp rows)) B [])"
    unfolding deref_def a4 o4 mr[symmetric] by (rule rev_map[symmetric])
  have len: "length (rev ra) = length (reconstruct (rev (zip vpp rows)) B [])"
    using mr by (metis length_map length_rev)
  show "map_sum id (\<lambda>sm. (deref (snd (st_dynamicProgrammingOptimization h a b ms)) (fst sm), snd sm))
           (fst (st_dynamicProgrammingOptimization h a b ms))
         = dynamicProgrammingOptimization (deref h a) b ms"
    unfolding r p using e d0 d4 len by simp
  have "set ra \<subseteq> fst ` set (rev (zip vps rows))"
    unfolding ra_def using set_reconstruct_addrs[of "obj_of h2" "rev (zip vps rows)" B "[]"] by simp
  also have "\<dots> \<subseteq> set vps" by (auto dest: set_zip_leftD)
  also have "\<dots> \<subseteq> set (arr_of h a)" by (simp add: vps_def)
  finally have sub: "set ra \<subseteq> set (arr_of h a)" .
  have e2: "arr_of h2 (Suc (length h)) = []" by (simp add: arr_of_def h2_def l1 nth_append)
  show "\<forall>sm. fst (st_dynamicProgrammingOptimization h a b ms) = Inr sm \<longrightarrow>
           set (arr_of (snd (st_dynamicProgrammingOptimization h a b ms)) (fst sm))
             \<subseteq> set (arr_of h a)"
    unfolding r using sub a4 e2 by (auto split: if_splits)
qed

lemma st_optimize_unfold:
  "st_optimizeShoppingList h a b opts =
     (let F = arr_filter h a valid_product
      in if arr_of (snd F) (fst F) = []
         then (Inr \<lparr>selected_at = length (snd F), read_back = empty_result\<rparr>, snd F @ [Arr []])
         else
           let M = arr_map_copy (snd F) (fst F) add_ratio;
               S = st_strategy (snd M) (fst M) b opts
           in case fst S of
                Inl e \<Rightarrow> (Inl e, snd S)
              | Inr sm \<Rightarrow>
                  (Inr \<lparr>selected_at = fst sm,
                        read_back = summarize (deref (snd S) (fst sm)) (deref (snd S) a) b (snd sm)\<rparr>,
                   snd S))"
proof -
  have f: "(\<lambda>product. product\<lparr>ratio := Some (score_total product / the (price product))\<rparr>) = add_ratio"
    by (rule ext) (simp add: add_ratio_def)
  show ?thesis
    unfolding st_optimizeShoppingList_def Let_def case_prod_beta f st_strategy_def alloc_def
      fst_conv snd_conv
    by (simp split: sum.splits)
qed

lemma optimize_unfold:
  "optimizeShoppingList ps b opts =
     (if filter valid_product ps = [] then Inr empty_result
      else case strategy_result ps b opts of
             Inl e \<Rightarrow> Inl e
           | Inr sm \<Rightarrow> Inr (summarize (fst sm) ps b (snd sm)))"
proof (cases "filter valid_product ps = []")
  case True
  then show ?thesis by (simp add: optimize_empty)
next
  case False
  show ?thesis unfolding optimize_nonempty[OF False] summarize_def Let_def using False
    by (simp add: case_prod_beta split: sum.splits)
qed

lemma deref_copied:
  "map (obj_of (h @ map Obj ps @ ys)) [length h..<length h + length ps] = ps"
proof (induction ps arbitrary: h)
  case Nil
  then show ?case by simp
next
  case (Cons p ps)
  have 1: "[length h..<length h + length (p # ps)]
         = length h # [length (h @ [Obj p])..<length (h @ [Obj p]) + length ps]"
    by (subst upt_rec) simp
  have 2: "h @ map Obj (p # ps) @ ys = (h @ [Obj p]) @ map Obj ps @ ys" by simp
  have 3: "obj_of ((h @ [Obj p]) @ map Obj ps @ ys) (length h) = p"
    by (simp add: obj_of_def nth_append)
  have "map (obj_of ((h @ [Obj p]) @ map Obj ps @ ys))
          (length h # [length (h @ [Obj p])..<length (h @ [Obj p]) + length ps]) = p # ps"
    using 3 Cons.IH[of "h @ [Obj p]"] by simp
  then show ?case unfolding 1 2 .
qed

lemma map_copy_eq:
  assumes "\<forall>x\<in>set (arr_of h a). x < length h"
  shows "arr_map_copy h a f =
           (length h + length (arr_of h a),
            h @ map Obj (map f (deref h a)) @ [Arr [length h..<length h + length (arr_of h a)]])"
  unfolding arr_map_copy_def copy_all_eq[OF assms] alloc_def deref_def
  by (simp add: comp_def)

lemma st_strategy_refines:
  assumes a: "a < length h" and xs: "\<forall>x\<in>set (arr_of h a). x < length h"
  shows "map_sum id (\<lambda>sm. (deref (snd (st_strategy h a b opts)) (fst sm), snd sm))
           (fst (st_strategy h a b opts))
         = (if opt_prioritizeSustainability opts
            then Inr (greedyOptimization (deref h a) b (opt_minScore opts))
            else dynamicProgrammingOptimization (deref h a) b (opt_minScore opts))"
    and "\<forall>sm. fst (st_strategy h a b opts) = Inr sm \<longrightarrow>
           set (arr_of (snd (st_strategy h a b opts)) (fst sm)) \<subseteq> set (arr_of h a)"
    and "untouched h (snd (st_strategy h a b opts))"
proof -
  show "map_sum id (\<lambda>sm. (deref (snd (st_strategy h a b opts)) (fst sm), snd sm))
           (fst (st_strategy h a b opts))
         = (if opt_prioritizeSustainability opts
            then Inr (greedyOptimization (deref h a) b (opt_minScore opts))
            else dynamicProgrammingOptimization (deref h a) b (opt_minScore opts))"
    unfolding st_strategy_def
    using st_greedy_refines(1,2)[OF a xs, of b "opt_minScore opts"]
      st_dp_refines(1)[OF a xs, of b "opt_minScore opts"]
    by (simp add: prod_eq_iff)
  show "\<forall>sm. fst (st_strategy h a b opts) = Inr sm \<longrightarrow>
           set (arr_of (snd (st_strategy h a b opts)) (fst sm)) \<subseteq> set (arr_of h a)"
    unfolding st_strategy_def
    using st_greedy_refines(3)[OF a xs, of b "opt_minScore opts"]
      st_dp_refines(2)[OF a xs, of b "opt_minScore opts"]
    by auto
  show "untouched h (snd (st_strategy h a b opts))"
    unfolding st_strategy_def
    using untouched_greedy[OF untouched_refl, of h a b "opt_minScore opts"]
      untouched_dp[OF untouched_refl, of h a b "opt_minScore opts"]
    by simp
qed

lemma productsWithRatio_add_ratio:
  "productsWithRatio ps = map add_ratio (filter valid_product ps)"
  by (simp add: productsWithRatio_def add_ratio_def)

lemma st_optimize_refines_fresh:
  assumes a: "a < length h" and xs: "\<forall>x\<in>set (arr_of h a). x < length h"
  shows "map_sum id read_back (fst (st_optimizeShoppingList h a b opts))
           = optimizeShoppingList (deref h a) b opts"
    and "\<forall>r. fst (st_optimizeShoppingList h a b opts) = Inr r \<longrightarrow>
           (\<forall>x\<in>set (arr_of (snd (st_optimizeShoppingList h a b opts)) (selected_at r)).
              length h \<le> x)"
proof -
  define vps where "vps = filter (\<lambda>x. valid_product (obj_of h x)) (arr_of h a)"
  define vpp where "vpp = filter valid_product (deref h a)"
  define h1 where "h1 = h @ [Arr vps]"
  define k where "k = length vps"
  define h2 where "h2 = h1 @ map Obj (map add_ratio vpp) @ [Arr [length h1..<length h1 + k]]"
  define pwr where "pwr = length h1 + k"
  define S where "S = st_strategy h2 pwr b opts"
  have F: "arr_filter h a valid_product = (length h, h1)"
    by (simp add: arr_filter_def alloc_def h1_def vps_def)
  have v1: "arr_of h1 (length h) = vps" unfolding h1_def by (rule arr_of_new)
  have vxs: "\<forall>x\<in>set vps. x < length h" using xs by (simp add: vps_def)
  have u1: "untouched h h1" unfolding h1_def by (rule untouched_append)
  have m0: "map (obj_of h) vps = vpp"
    unfolding vps_def vpp_def deref_def by (simp add: filter_map comp_def)
  have d1: "deref h1 (length h) = vpp"
    unfolding deref_def v1 using map_obj_of_untouched[OF u1 vxs] m0 by simp
  have e: "(vps = []) = (vpp = [])" using m0 by (metis map_is_Nil_conv)
  have kk: "k = length vpp" unfolding k_def using m0 by (metis length_map)
  have x1: "\<forall>x\<in>set (arr_of h1 (length h)). x < length h1"
    unfolding v1 using vxs by (auto simp: h1_def)
  have M: "arr_map_copy h1 (length h) add_ratio = (pwr, h2)"
    unfolding map_copy_eq[OF x1] v1 d1 pwr_def h2_def k_def ..
  have l2: "length h2 = Suc (length h1 + k)" by (simp add: h2_def kk)
  have p2: "pwr < length h2" by (simp add: pwr_def l2)
  have a2: "arr_of h2 pwr = [length h1..<length h1 + k]"
    unfolding h2_def pwr_def by (simp add: arr_of_def nth_append kk)
  have x2: "\<forall>x\<in>set (arr_of h2 pwr). x < length h2" unfolding a2 l2 by simp
  have fresh2: "\<forall>x\<in>set (arr_of h2 pwr). length h \<le> x" unfolding a2 by (auto simp: h1_def)
  have "map (obj_of h2) [length h1..<length h1 + length (map add_ratio vpp)] = map add_ratio vpp"
    unfolding h2_def by (rule deref_copied)
  then have "deref h2 pwr = map add_ratio vpp"
    unfolding deref_def a2 kk by simp
  then have d2: "deref h2 pwr = productsWithRatio (deref h a)"
    unfolding productsWithRatio_add_ratio vpp_def .
  have u2: "untouched h h2"
    unfolding h2_def by (rule untouched_trans[OF u1 untouched_append])
  have uS: "untouched h (snd S)"
    unfolding S_def by (rule untouched_trans[OF u2 st_strategy_refines(3)[OF p2 x2]])
  have rS: "map_sum id (\<lambda>sm. (deref (snd S) (fst sm), snd sm)) (fst S)
              = strategy_result (deref h a) b opts"
    unfolding S_def st_strategy_refines(1)[OF p2 x2] d2 strategy_result_def ..
  have fS: "\<forall>sm. fst S = Inr sm \<longrightarrow> (\<forall>x\<in>set (arr_of (snd S) (fst sm)). length h \<le> x)"
    unfolding S_def using st_strategy_refines(2)[OF p2 x2, of b opts] fresh2 by blast
  have dS: "deref (snd S) a = deref h a"
    unfolding deref_def untouched_arr_of[OF uS a]
    by (rule map_obj_of_untouched[OF uS xs])
  have r: "st_optimizeShoppingList h a b opts =
     (if vps = []
      then (Inr \<lparr>selected_at = length h1, read_back = empty_result\<rparr>, h1 @ [Arr []])
      else case fst S of
             Inl e \<Rightarrow> (Inl e, snd S)
           | Inr sm \<Rightarrow>
               (Inr \<lparr>selected_at = fst sm,
                     read_back = summarize (deref (snd S) (fst sm)) (deref h a) b (snd sm)\<rparr>,
                snd S))"
    unfolding st_optimize_unfold Let_def F fst_conv snd_conv v1 M S_def[symmetric] dS ..
  show "map_sum id read_back (fst (st_optimizeShoppingList h a b opts))
           = optimizeShoppingList (deref h a) b opts"
  proof (cases "vps = []")
    case True
    then show ?thesis unfolding r optimize_unfold using e by (simp add: vpp_def)
  next
    case False
    then have ne: "filter valid_product (deref h a) \<noteq> []" using e by (simp add: vpp_def)
    show ?thesis
    proof (cases "fst S")
      case (Inl err)
      with rS have "strategy_result (deref h a) b opts = Inl err" by simp
      then show ?thesis unfolding r optimize_unfold using False ne Inl by simp
    next
      case (Inr sm)
      with rS have "strategy_result (deref h a) b opts = Inr (deref (snd S) (fst sm), snd sm)"
        by simp
      then show ?thesis unfolding r optimize_unfold using False ne Inr by simp
    qed
  qed
  show "\<forall>r. fst (st_optimizeShoppingList h a b opts) = Inr r \<longrightarrow>
           (\<forall>x\<in>set (arr_of (snd (st_optimizeShoppingList h a b opts)) (selected_at r)).
              length h \<le> x)"
  proof (cases "vps = []")
    case True
    have "st_optimizeShoppingList h a b opts
            = (Inr \<lparr>selected_at = length h1, read_back = empty_result\<rparr>, h1 @ [Arr []])"
      using True by (simp add: r)
    then show ?thesis by (simp add: arr_of_new)
  next
    case False
    show ?thesis
    proof (cases "fst S")
      case (Inl err)
      then have "fst (st_optimizeShoppingList h a b opts) = Inl err" using False by (simp add: r)
      then show ?thesis by simp
    next
      case (Inr sm)
      then have "st_optimizeShoppingList h a b opts
         = (Inr \<lparr>selected_at = fst sm,
                     read_back = summarize (deref (snd S) (fst sm)) (deref h a) b (snd sm)\<rparr>,
                snd S)" using False by (simp add: r)
      then show ?thesis using fS Inr by simp
    qed
  qed
qed

subsection \<open>The frame of a call\<close>

lemma well_typed_bounds:
  assumes "well_typed h a"
  shows "a < length h" "\<forall>x\<in>set (arr_of h a). x < length h"
proof -
  from assms obtain xs where x: "a < length h" "h ! a = Arr xs"
    "list_all (\<lambda>x. x < length h \<and> (\<exists>p. h ! x = Obj p)) xs"
    unfolding well_typed_def by blast
  show "a < length h" by (rule x(1))
  have "arr_of h a = xs" using x(1,2) by (simp add: arr_of_def)
  then show "\<forall>x\<in>set (arr_of h a). x < length h" using x(3) by (simp add: list_all_iff)
qed

text \<open>
  Claim C10. A call of the optimizer on a store leaves every cell the store had as it was:
  the input array and every product record are unchanged, whatever the strategy and whether
  the call returns or fails. The array it returns as \<open>selected\<close> and the objects in it are
  cells allocated by the call. What the call returns, read back from the store, is what
  \<^const>\<open>optimizeShoppingList\<close> computes from the products of the input array.
\<close>

theorem optimizer_never_mutates_input:
  assumes "well_typed h products"
  shows "untouched h (snd (st_optimizeShoppingList h products maxBudget options))
     \<and> (\<forall>a<length h. snd (st_optimizeShoppingList h products maxBudget options) ! a = h ! a)
     \<and> arr_of (snd (st_optimizeShoppingList h products maxBudget options)) products
         = arr_of h products
     \<and> deref (snd (st_optimizeShoppingList h products maxBudget options)) products
         = deref h products
     \<and> map_sum id read_back (fst (st_optimizeShoppingList h products maxBudget options))
         = optimizeShoppingList (deref h products) maxBudget options
     \<and> (\<forall>r. fst (st_optimizeShoppingList h products maxBudget options) = Inr r \<longrightarrow>
          length h \<le> selected_at r
          \<and> (\<forall>x\<in>set (arr_of (snd (st_optimizeShoppingList h products maxBudget options))
                          (selected_at r)). length h \<le> x))"
proof -
  note b = well_typed_bounds[OF assms]
  let ?R = "st_optimizeShoppingList h products maxBudget options"
  have u: "untouched h (snd ?R)" and s: "\<forall>r. fst ?R = Inr r \<longrightarrow> length h \<le> selected_at r"
    using st_optimize_untouched[of h products maxBudget options] by blast+
  have n: "\<forall>a<length h. snd ?R ! a = h ! a" using untouched_nth[OF u] by blast
  have a: "arr_of (snd ?R) products = arr_of h products" by (rule untouched_arr_of[OF u b(1)])
  have d: "deref (snd ?R) products = deref h products"
    unfolding deref_def a by (rule map_obj_of_untouched[OF u b(2)])
  show ?thesis
    using u n a d s st_optimize_refines_fresh[OF b, of maxBudget options] by blast
qed

theorem optimizer_never_mutates_input_witness:
  "well_typed (store_of scenario_products) 4
   \<and> length (store_of scenario_products) = 5
   \<and> take 5 (snd (st_optimizeShoppingList (store_of scenario_products) 4 25 default_options))
       = store_of scenario_products
   \<and> deref (snd (st_optimizeShoppingList (store_of scenario_products) 4 25 default_options)) 4
       = scenario_products
   \<and> map_sum id (\<lambda>r. (map prod_id (selected r), totalCost r))
         (map_sum id read_back
            (fst (st_optimizeShoppingList (store_of scenario_products) 4 25 default_options)))
       = Inr ([Some 4, Some 1], 15)
   \<and> take 5 (snd (st_optimizeShoppingList (store_of scenario_products) 4 25 dp_options))
       = store_of scenario_products"
proof -
  have w: "well_typed (store_of scenario_products) 4"
    by (simp add: well_typed_def store_of_def scenario_products_def)
  have l: "length (store_of scenario_products) = 5"
    by (simp add: store_of_def scenario_products_def)
  have d0: "deref (store_of scenario_products) 4 = scenario_products"
    by (simp add: deref_def store_of_def scenario_products_def arr_of_def obj_of_def upt_rec)
  have e: "map_sum id (\<lambda>r. (map prod_id (selected r), totalCost r))
         (optimizeShoppingList scenario_products 25 default_options)
       = Inr ([Some 4, Some 1], 15)"
    by code_simp
  note g = optimizer_never_mutates_input[OF w, of 25 default_options]
  note p = optimizer_never_mutates_input[OF w, of 25 dp_options]
  have g1: "take 5 (snd (st_optimizeShoppingList (store_of scenario_products) 4 25 default_options))
       = store_of scenario_products"
    using g l by (simp add: untouched_def)
  have g2: "deref (snd (st_optimizeShoppingList (store_of scenario_products) 4 25 default_options)) 4
       = scenario_products"
    using g d0 by simp
  have g3: "map_sum id read_back
            (fst (st_optimizeShoppingList (store_of scenario_products) 4 25 default_options))
       = optimizeShoppingList scenario_products 25 default_options"
    using g d0 by simp
  have p1: "take 5 (snd (st_optimizeShoppingList (store_of scenario_products) 4 25 dp_options))
       = store_of scenario_products"
    using p l by (simp add: untouched_def)
  show ?thesis unfolding g3 using w l e g1 g2 p1 by simp
qed

end
